theory Spec2Isabelle
  imports Main
begin

section \<open>Configuration and provider data\<close>

text \<open>
  The stack \<open>NatInstancesStack\<close> builds four Step Functions state machines (Failover,
  ReplaceInstance, Fallback, Maintenance) out of CDK constructs. Each state machine is
  embedded as a function from a provider (the AWS APIs the tasks call) and a start time to
  the finished execution: its outcome, the log of the calls it issued, and its end time.
  IAM statements, log groups and resource tags do not influence the control flow and are
  left out of the request records.
\<close>

text \<open>\<open>interface AzConfiguration\<close> (model/Vpc).\<close>

record AzConfiguration =
  availabilityZone :: string
  publicSubnetId :: string
  natGatewayId :: string
  privateSubnetId :: string
  privateRouteTableId :: string

text \<open>Parameters of \<open>ec2:replaceRoute\<close>; a route points at a NAT gateway or at an instance.\<close>

record ReplaceRouteParameters =
  DestinationCidrBlock :: string
  RouteNatGatewayId :: "string option"
  RouteInstanceId :: "string option"
  RouteTableId :: string

text \<open>Parameters of \<open>ec2:runInstances\<close> as \<open>getRunInstanceTask\<close> fills them.\<close>

record RunInstancesParameters =
  ImageId :: string
  InstanceType :: string
  MinCount :: nat
  MaxCount :: nat
  DisableApiTermination :: bool
  HttpEndpoint :: string
  DeviceIndex :: nat
  AssociatePublicIpAddress :: bool
  DeleteOnTermination :: bool
  NetworkInterfaceSubnetId :: string
  Groups :: "string list"

record Filter =
  Name :: string
  Values :: "string list"

record ListExecutionsParameters =
  StateMachineArn :: string
  StatusFilter :: string

datatype instance_attribute = SetSourceDestCheck bool | SetDisableApiTermination bool

text \<open>Responses of \<open>ec2:describeInstances\<close> and \<open>ec2:describeInstanceStatus\<close>.\<close>

record Instance =
  InstanceId :: string
  SubnetId :: string

record Reservation =
  Instances :: "Instance list"

record InstanceStatusItem =
  InstanceStatus :: string
  SystemStatus :: string

datatype api_call =
    ReplaceRoute ReplaceRouteParameters
  | DescribeInstances "Filter list"
  | LambdaInvoke string
  | RunInstances RunInstancesParameters
  | DescribeInstanceStatus "string list"
  | ModifyInstanceAttribute string instance_attribute
  | TerminateInstances "string list"
  | ListExecutions ListExecutionsParameters
  | StartImagePipelineExecution string
  | ListImageBuildVersions string

text \<open>
  The errors a state can raise: a call that the service answered with the named error,
  a reference path that could not be resolved against the state's input or result, and a
  child execution that did not succeed.
\<close>

datatype error =
    TaskFailed string
  | PathNotFound string
  | ExecutionFailed string

text \<open>
  The provider answers a request made at a given time (in seconds); an answer is the name
  of an error or the typed response. The polled operations change their answer as time
  passes.
\<close>

record provider =
  replaceRoute :: "ReplaceRouteParameters \<Rightarrow> nat \<Rightarrow> string + unit"
  describeInstances :: "Filter list \<Rightarrow> nat \<Rightarrow> string + Reservation list"
  latestImage :: "string \<Rightarrow> nat \<Rightarrow> string + string"
  runInstances :: "RunInstancesParameters \<Rightarrow> nat \<Rightarrow> string + Instance list"
  describeInstanceStatus :: "string list \<Rightarrow> nat \<Rightarrow> string + InstanceStatusItem list"
  modifyInstanceAttribute :: "string \<Rightarrow> instance_attribute \<Rightarrow> nat \<Rightarrow> string + unit"
  terminateInstances :: "string list \<Rightarrow> nat \<Rightarrow> string + unit"
  listExecutions :: "ListExecutionsParameters \<Rightarrow> nat \<Rightarrow> string + string list"
  startImagePipelineExecution :: "string \<Rightarrow> nat \<Rightarrow> string + unit"
  listImageBuildVersions :: "string \<Rightarrow> nat \<Rightarrow> string + string list"

section \<open>The workflow engine\<close>

text \<open>
  Step Functions itself is not part of the repository; the state kinds the four
  definitions use (Task, Pass, Choice, Wait, Map, Parallel, Fail, catch, retry, the
  synchronous start of a child execution and the whole-execution timeout) are given the
  meaning of the Amazon States Language. A step started at time \<open>now\<close> yields a \<open>run\<close>:
  how it ended, the events it logged and the time it ended. Tasks and Pass states take no
  modelled time; Wait states and child executions advance the clock.
\<close>

datatype cause = FailState string | Timeout | Uncaught error

datatype outcome = Succeeded | Failed cause

datatype event =
    Api nat api_call
  | ExecutionStarted nat string
  | ExecutionEnded nat string outcome

fun at :: "event \<Rightarrow> nat" where
  "at (Api t c) = t"
| "at (ExecutionStarted t n) = t"
| "at (ExecutionEnded t n out) = t"

datatype 'a status = Next 'a | Raise error | Halt cause

datatype 'a run = Run (status: "'a status") (events: "event list") (clock: nat)

datatype execution = Execution (outcome: outcome) (trace: "event list") (ended: nat)

text \<open>
  When an item of a Map (or a branch of a Parallel) fails, the items in flight are either
  stopped at once or allowed to finish before the Map fails; the engine's contract leaves
  this open and both policies are modelled.
\<close>

datatype map_policy = FailFast | WaitForAll

text \<open>
  \<open>CallAwsService\<close> / \<open>LambdaInvoke\<close>: log the call; an error answer raises a task
  failure with the error's name.
\<close>

definition callAwsService :: "api_call \<Rightarrow> string + 'a \<Rightarrow> nat \<Rightarrow> 'a run" where
  "callAwsService call answer now =
     Run (case answer of Inl e \<Rightarrow> Raise (TaskFailed e) | Inr v \<Rightarrow> Next v) [Api now call] now"

text \<open>\<open>a.next(b)\<close>: \<open>b\<close> starts with the output of \<open>a\<close> when \<open>a\<close> ends normally.\<close>

definition next_state :: "'a run \<Rightarrow> ('a \<Rightarrow> nat \<Rightarrow> 'b run) \<Rightarrow> 'b run" where
  "next_state r k =
     (case r of
        Run (Next a) evs t \<Rightarrow> (case k a t of Run st' evs' t' \<Rightarrow> Run st' (evs @ evs') t')
      | Run (Raise e) evs t \<Rightarrow> Run (Raise e) evs t
      | Run (Halt c) evs t \<Rightarrow> Run (Halt c) evs t)"

text \<open>
  The error name \<open>States.ALL\<close> matches every error but a runtime error; a reference path
  that cannot be resolved is a runtime error (\<open>States.Runtime\<close>), which no catch and no
  retry receives.
\<close>

fun statesALL :: "error \<Rightarrow> bool" where
  "statesALL (TaskFailed name) = True"
| "statesALL (PathNotFound path) = False"
| "statesALL (ExecutionFailed name) = True"

text \<open>
  \<open>a.addCatch(h)\<close>: the stack passes no list of error names, so the catch is one for
  \<open>States.ALL\<close>; an error it matches transfers control to the state \<open>h\<close>, any other error
  stays raised.
\<close>

definition addCatch :: "'a run \<Rightarrow> (nat \<Rightarrow> 'a run) \<Rightarrow> 'a run" where
  "addCatch r handler =
     (case r of
        Run (Raise e) evs t \<Rightarrow>
          if statesALL e
          then (case handler t of Run st' evs' t' \<Rightarrow> Run st' (evs @ evs') t')
          else Run (Raise e) evs t
      | Run (Next a) evs t \<Rightarrow> Run (Next a) evs t
      | Run (Halt c) evs t \<Rightarrow> Run (Halt c) evs t)"

text \<open>
  Modelled from the spec: \<open>StepFunctionsTasks.createStateMachineFailState\<close> is called by
  the stack but its body is not among the sources. Every catch of the four workflows
  routes to a dedicated terminal Fail state carrying a structured cause; the cause is the
  id the state is created with.
\<close>

definition createStateMachineFailState :: "string \<Rightarrow> nat \<Rightarrow> 'a run" where
  "createStateMachineFailState ident now = Run (Halt (FailState ident)) [] now"

text \<open>
  \<open>sfn.Wait\<close> under a whole-execution deadline: the execution times out when the wait
  would reach the deadline.
\<close>

definition waitState :: "nat \<Rightarrow> nat \<Rightarrow> nat \<Rightarrow> unit run" where
  "waitState seconds deadline now =
     (if deadline \<le> now + seconds then Run (Halt Timeout) [] deadline
      else Run (Next ()) [] (now + seconds))"

text \<open>Bookkeeping: put the events logged so far in front of a run; drop a step's output.\<close>

definition after :: "event list \<Rightarrow> 'a run \<Rightarrow> 'a run" where
  "after evs r = (case r of Run st evs' t \<Rightarrow> Run st (evs @ evs') t)"

definition discard :: "'a run \<Rightarrow> unit run" where
  "discard r =
     (case r of
        Run (Next a) evs t \<Rightarrow> Run (Next ()) evs t
      | Run (Raise e) evs t \<Rightarrow> Run (Raise e) evs t
      | Run (Halt c) evs t \<Rightarrow> Run (Halt c) evs t)"

text \<open>
  \<open>task.addRetry({errors, interval, maxAttempts, backoffRate})\<close>: when the task fails
  with one of the named errors and attempts are left, the engine waits for the interval
  and runs the task again; the interval is multiplied by the backoff rate after every
  attempt. The waits count against the deadline of the execution.
\<close>

fun addRetry ::
  "string list \<Rightarrow> nat \<Rightarrow> nat \<Rightarrow> nat \<Rightarrow> nat \<Rightarrow> (nat \<Rightarrow> 'a run) \<Rightarrow> nat \<Rightarrow> 'a run" where
  "addRetry errors backoffRate deadline 0 interval task now = task now"
| "addRetry errors backoffRate deadline (Suc maxAttempts) interval task now =
     (case task now of
        Run (Next a) evs t \<Rightarrow> Run (Next a) evs t
      | Run (Halt c) evs t \<Rightarrow> Run (Halt c) evs t
      | Run (Raise err) evs t \<Rightarrow>
          (case err of
             TaskFailed name \<Rightarrow>
               if name \<in> set errors
               then (case waitState interval deadline t of
                       Run (Next u) evs' t' \<Rightarrow>
                         after evs (addRetry errors backoffRate deadline maxAttempts
                                      (backoffRate * interval) task t')
                     | Run (Raise e') evs' t' \<Rightarrow> Run (Raise e') (evs @ evs') t'
                     | Run (Halt c) evs' t' \<Rightarrow> Run (Halt c) (evs @ evs') t')
               else Run (Raise err) evs t
           | PathNotFound path \<Rightarrow> Run (Raise err) evs t
           | ExecutionFailed child \<Rightarrow> Run (Raise err) evs t))"

text \<open>
  \<open>sfn.Map\<close> with \<open>maxConcurrency = m\<close> (0 is unbounded). Items are taken in input
  order; an item starts at the Map's entry time while fewer than \<open>m\<close> items are in flight,
  and otherwise when the earliest item in flight ends. \<open>inflight\<close> holds the end times of
  the items in flight, sorted. An item that would have to wait for a slot is not started
  when an earlier item has failed by the time the slot is free.
\<close>

definition itemStart :: "nat \<Rightarrow> nat \<Rightarrow> nat list \<Rightarrow> nat" where
  "itemStart m now inflight =
     (if m = 0 \<or> length inflight < m then now
      else (case inflight of [] \<Rightarrow> now | e # es \<Rightarrow> e))"

definition stillInFlight :: "nat \<Rightarrow> nat list \<Rightarrow> nat list" where
  "stillInFlight m inflight =
     (if m = 0 \<or> length inflight < m then inflight
      else (case inflight of [] \<Rightarrow> [] | e # es \<Rightarrow> es))"

definition notStarted :: "nat \<Rightarrow> nat \<Rightarrow> nat list \<Rightarrow> nat option \<Rightarrow> bool" where
  "notStarted m now inflight failedBy =
     (case failedBy of
        None \<Rightarrow> False
      | Some tf \<Rightarrow> \<not> (m = 0 \<or> length inflight < m) \<and> tf \<le> itemStart m now inflight)"

text \<open>The time at which a run failed, and the earlier of two such times.\<close>

fun failedAt :: "'a status \<Rightarrow> nat \<Rightarrow> nat option" where
  "failedAt (Next a) t = None"
| "failedAt (Raise e) t = Some t"
| "failedAt (Halt c) t = Some t"

fun earlier :: "nat option \<Rightarrow> nat option \<Rightarrow> nat option" where
  "earlier None b = b"
| "earlier (Some a) None = Some a"
| "earlier (Some a) (Some b) = Some (min a b)"

fun startItems ::
  "nat \<Rightarrow> ('a \<Rightarrow> nat \<Rightarrow> 'b run) \<Rightarrow> nat \<Rightarrow> nat list \<Rightarrow> nat option \<Rightarrow> 'a list \<Rightarrow> 'b run list" where
  "startItems m f now inflight failedBy [] = []"
| "startItems m f now inflight failedBy (x # xs) =
     (if notStarted m now inflight failedBy then []
      else (case f x (itemStart m now inflight) of
              Run st evs t \<Rightarrow>
                Run st evs t
                # startItems m f now (insort t (stillInFlight m inflight))
                    (earlier failedBy (failedAt st t)) xs))"

text \<open>
  The result of a Map from the runs of its started items, listed in input order. If no
  item failed, the Map ends normally when the last item does. Otherwise the failure that
  came first decides, the earlier item first among failures at the same time. Under
  \<open>FailFast\<close> the Map fails at that time and the items in flight are stopped: of their
  events those up to that time have happened. Under \<open>WaitForAll\<close> the started items run
  to their end; an item that ends the execution (a timeout) then takes precedence over
  an error raised by another item.
\<close>

datatype failure = Raised error | Halted cause

fun failureOf :: "'a run \<Rightarrow> (nat \<times> failure) option" where
  "failureOf (Run (Next a) evs t) = None"
| "failureOf (Run (Raise e) evs t) = Some (t, Raised e)"
| "failureOf (Run (Halt c) evs t) = Some (t, Halted c)"

fun earliest ::
  "(nat \<times> failure) option \<Rightarrow> (nat \<times> failure) option \<Rightarrow> (nat \<times> failure) option" where
  "earliest None b = b"
| "earliest (Some a) None = Some a"
| "earliest (Some (t, x)) (Some (t', y)) = (if t' < t then Some (t', y) else Some (t, x))"

fun firstFailure :: "'a run list \<Rightarrow> (nat \<times> failure) option" where
  "firstFailure [] = None"
| "firstFailure (r # rs) = earliest (failureOf r) (firstFailure rs)"

fun outputOf :: "'a run \<Rightarrow> 'a list" where
  "outputOf (Run (Next a) evs t) = [a]"
| "outputOf (Run (Raise e) evs t) = []"
| "outputOf (Run (Halt c) evs t) = []"

fun failWith :: "failure \<Rightarrow> 'a status" where
  "failWith (Raised e) = Raise e"
| "failWith (Halted c) = Halt c"

fun isHalted :: "'a run \<Rightarrow> bool" where
  "isHalted (Run (Halt c) evs t) = True"
| "isHalted (Run (Next a) evs t) = False"
| "isHalted (Run (Raise e) evs t) = False"

fun finishItems ::
  "map_policy \<Rightarrow> nat \<Rightarrow> 'a run list \<Rightarrow> (nat \<times> failure) option \<Rightarrow> 'a list run" where
  "finishItems pol now rs None =
     Run (Next (concat (map outputOf rs))) (concat (map events rs)) (fold max (map clock rs) now)"
| "finishItems FailFast now rs (Some (tf, x)) =
     Run (failWith x) (concat (map (\<lambda>r. filter (\<lambda>e. at e \<le> tf) (events r)) rs)) tf"
| "finishItems WaitForAll now rs (Some (tf, x)) =
     Run (case firstFailure (filter isHalted rs) of
            None \<Rightarrow> failWith x
          | Some (th, h) \<Rightarrow> failWith h)
       (concat (map events rs)) (fold max (map clock rs) now)"

definition joinItems :: "map_policy \<Rightarrow> nat \<Rightarrow> 'a run list \<Rightarrow> 'a list run" where
  "joinItems pol now rs = finishItems pol now rs (firstFailure rs)"

definition mapItems ::
  "map_policy \<Rightarrow> nat \<Rightarrow> ('a \<Rightarrow> nat \<Rightarrow> 'b run) \<Rightarrow> nat \<Rightarrow> nat list \<Rightarrow> 'a list \<Rightarrow> 'b list run" where
  "mapItems pol m f now inflight xs = joinItems pol now (startItems m f now inflight None xs)"

definition mapState ::
  "map_policy \<Rightarrow> nat \<Rightarrow> ('a \<Rightarrow> nat \<Rightarrow> 'b run) \<Rightarrow> 'a list \<Rightarrow> nat \<Rightarrow> 'b list run" where
  "mapState pol maxConcurrency itemProcessor items now =
     mapItems pol maxConcurrency itemProcessor now [] items"

text \<open>\<open>sfn.Parallel\<close>: every branch starts at the entry time; all must end normally.\<close>

definition parallelState :: "map_policy \<Rightarrow> (nat \<Rightarrow> 'a run) list \<Rightarrow> nat \<Rightarrow> 'a list run" where
  "parallelState pol branches now = mapItems pol 0 (\<lambda>branch t. branch t) now [] branches"

text \<open>
  \<open>StepFunctionsStartExecution\<close> with \<open>IntegrationPattern.RUN_JOB\<close>: the child execution
  runs to its terminal state before the task returns; a failed child raises. The parent
  times out if the child is still running at the parent's deadline.
\<close>

definition childFinished :: "string \<Rightarrow> nat \<Rightarrow> outcome \<Rightarrow> event list \<Rightarrow> nat \<Rightarrow> unit run" where
  "childFinished name now out tr t =
     Run (case out of
            Succeeded \<Rightarrow> Next ()
          | Failed c \<Rightarrow> Raise (ExecutionFailed name))
       (ExecutionStarted now name # tr @ [ExecutionEnded t name out]) t"

definition startExecutionSync ::
  "string \<Rightarrow> (nat \<Rightarrow> execution) \<Rightarrow> nat option \<Rightarrow> nat \<Rightarrow> unit run" where
  "startExecutionSync name stateMachine deadline now =
     (case stateMachine now of
        Execution out tr t \<Rightarrow>
          (case deadline of
             None \<Rightarrow> childFinished name now out tr t
           | Some d \<Rightarrow>
               if d \<le> t
               then Run (Halt Timeout)
                      (ExecutionStarted now name # filter (\<lambda>e. at e < d) tr) d
               else childFinished name now out tr t))"

text \<open>The end of the state graph: normal completion succeeds, an uncaught error fails.\<close>

definition runStateMachine :: "'a run \<Rightarrow> execution" where
  "runStateMachine r =
     (case r of
        Run (Next a) evs t \<Rightarrow> Execution Succeeded evs t
      | Run (Raise e) evs t \<Rightarrow> Execution (Failed (Uncaught e)) evs t
      | Run (Halt c) evs t \<Rightarrow> Execution (Failed c) evs t)"

section \<open>Tasks (constructs/StepFunctions)\<close>

text \<open>
  Each task getter becomes the function from the task's input (the part of the context
  document its JSON paths read) to its run. A path into an empty list, such as
  \<open>$.Instances[0].InstanceId\<close>, cannot be resolved and raises. A \<open>resultPath\<close> adds the
  result beside the input; the typed output then is the result, and the caller keeps the
  input it already holds.
\<close>

definition NAT_INSTANCES_NAME_TAG :: string where
  "NAT_INSTANCES_NAME_TAG = ''NAT''"

definition Aws_REGION :: string where
  "Aws_REGION = ''${AWS::Region}''"

definition Aws_ACCOUNT_ID :: string where
  "Aws_ACCOUNT_ID = ''${AWS::AccountId}''"

definition getReplaceRouteWithNatGatewayTask ::
  "provider \<Rightarrow> AzConfiguration \<Rightarrow> nat \<Rightarrow> unit run" where
  "getReplaceRouteWithNatGatewayTask p input now =
     (let parameters = \<lparr>DestinationCidrBlock = ''0.0.0.0/0'',
                         RouteNatGatewayId = Some (natGatewayId input),
                         RouteInstanceId = None,
                         RouteTableId = privateRouteTableId input\<rparr>
      in callAwsService (ReplaceRoute parameters) (replaceRoute p parameters now) now)"

text \<open>The output of the Pass state \<open>GetDesiredRouteTableId\<close>, input of the next task.\<close>

record DesiredRouteTable =
  DesiredInstanceId :: string
  RouteTable :: "AzConfiguration list"

definition getReplaceRouteWithNatInstanceTask ::
  "provider \<Rightarrow> DesiredRouteTable \<Rightarrow> nat \<Rightarrow> unit run" where
  "getReplaceRouteWithNatInstanceTask p input now =
     (case RouteTable input of
        [] \<Rightarrow> Run (Raise (PathNotFound ''$.RouteTable[0].privateRouteTableId'')) [] now
      | az # rest \<Rightarrow>
          (let parameters = \<lparr>DestinationCidrBlock = ''0.0.0.0/0'',
                              RouteNatGatewayId = None,
                              RouteInstanceId = Some (DesiredInstanceId input),
                              RouteTableId = privateRouteTableId az\<rparr>
           in callAwsService (ReplaceRoute parameters) (replaceRoute p parameters now) now))"

text \<open>The \<open>Filters\<close> parameter of \<open>getNatInstancesTask\<close>.\<close>

definition natInstancesFilters :: "Filter list" where
  "natInstancesFilters =
     [\<lparr>Name = ''tag:Name'', Values = [NAT_INSTANCES_NAME_TAG]\<rparr>,
      \<lparr>Name = ''tag:StateMachine'', Values = [''NATInstanceReplaceInstance'']\<rparr>,
      \<lparr>Name = ''instance-state-name'', Values = [''running'']\<rparr>]"

definition getNatInstancesTask :: "provider \<Rightarrow> nat \<Rightarrow> Reservation list run" where
  "getNatInstancesTask p now =
     callAwsService (DescribeInstances natInstancesFilters)
       (describeInstances p natInstancesFilters now) now"

text \<open>
  \<open>sfnTasks.LambdaInvoke\<close> retries on the service exceptions of Lambda unless
  \<open>retryOnServiceExceptions\<close> is switched off, which the stack does not do: interval 2
  seconds, 6 attempts, backoff rate 2.
\<close>

definition lambdaServiceExceptions :: "string list" where
  "lambdaServiceExceptions =
     [''Lambda.ClientExecutionTimeoutException'', ''Lambda.ServiceException'',
      ''Lambda.AWSLambdaException'', ''Lambda.SdkClientException'']"

definition getNatInstancesImageTask :: "provider \<Rightarrow> string \<Rightarrow> nat \<Rightarrow> nat \<Rightarrow> string run" where
  "getNatInstancesImageTask p getLatestImageFunction deadline now =
     addRetry lambdaServiceExceptions 2 deadline 6 2
       (\<lambda>t. callAwsService (LambdaInvoke getLatestImageFunction)
              (latestImage p getLatestImageFunction t) t)
       now"

text \<open>The \<open>parameters\<close> of \<open>getRunInstanceTask\<close>, read from the task's input.\<close>

definition runInstanceParameters ::
  "string \<Rightarrow> string \<Rightarrow> AzConfiguration \<Rightarrow> string \<Rightarrow> RunInstancesParameters" where
  "runInstanceParameters natInstancesSecurityGroup natInstanceType input imageId =
     \<lparr>ImageId = imageId,
      InstanceType = natInstanceType,
      MinCount = 1,
      MaxCount = 1,
      DisableApiTermination = True,
      HttpEndpoint = ''disabled'',
      DeviceIndex = 0,
      AssociatePublicIpAddress = True,
      DeleteOnTermination = True,
      NetworkInterfaceSubnetId = publicSubnetId input,
      Groups = [natInstancesSecurityGroup]\<rparr>"

definition getRunInstanceTask ::
  "provider \<Rightarrow> string \<Rightarrow> string \<Rightarrow> AzConfiguration \<Rightarrow> string \<Rightarrow> nat \<Rightarrow> string run" where
  "getRunInstanceTask p natInstancesSecurityGroup natInstanceType input imageId now =
     (let parameters = runInstanceParameters natInstancesSecurityGroup natInstanceType input imageId
      in next_state (callAwsService (RunInstances parameters) (runInstances p parameters now) now)
           (\<lambda>result t.
              case result of
                [] \<Rightarrow> Run (Raise (PathNotFound ''$.Instances[0].InstanceId'')) [] t
              | i # rest \<Rightarrow> Run (Next (InstanceId i)) [] t))"

definition getInstanceStateTask :: "provider \<Rightarrow> string \<Rightarrow> nat \<Rightarrow> InstanceStatusItem list run" where
  "getInstanceStateTask p instanceId now =
     callAwsService (DescribeInstanceStatus [instanceId])
       (describeInstanceStatus p [instanceId] now) now"

definition getDisableInstanceSourceDestCheckTask :: "provider \<Rightarrow> string \<Rightarrow> nat \<Rightarrow> unit run" where
  "getDisableInstanceSourceDestCheckTask p instanceId now =
     callAwsService (ModifyInstanceAttribute instanceId (SetSourceDestCheck False))
       (modifyInstanceAttribute p instanceId (SetSourceDestCheck False) now) now"

definition getDisableInstanceTerminationProtectionTask ::
  "provider \<Rightarrow> Reservation \<Rightarrow> nat \<Rightarrow> Reservation run" where
  "getDisableInstanceTerminationProtectionTask p input now =
     (case Instances input of
        [] \<Rightarrow> Run (Raise (PathNotFound ''$.Instances[0].InstanceId'')) [] now
      | i # rest \<Rightarrow>
          next_state
            (callAwsService (ModifyInstanceAttribute (InstanceId i) (SetDisableApiTermination False))
               (modifyInstanceAttribute p (InstanceId i) (SetDisableApiTermination False) now) now)
            (\<lambda>result t. Run (Next input) [] t))"

definition getTerminateInstanceTask :: "provider \<Rightarrow> Reservation \<Rightarrow> nat \<Rightarrow> unit run" where
  "getTerminateInstanceTask p input now =
     (case Instances input of
        [] \<Rightarrow> Run (Raise (PathNotFound ''$.Instances[0].InstanceId'')) [] now
      | i # rest \<Rightarrow>
          callAwsService (TerminateInstances [InstanceId i])
            (terminateInstances p [InstanceId i] now) now)"

text \<open>
  The stack calls the next three getters as \<open>getStateMachineRunningTask\<close>,
  \<open>getTriggerImagesPipelineTask\<close> and \<open>getCheckImagesPipelineStatusTask\<close>.
\<close>

definition getStateMachineRunning :: "provider \<Rightarrow> string \<Rightarrow> nat \<Rightarrow> string list run" where
  "getStateMachineRunning p stateMachineArn now =
     (let parameters = \<lparr>StateMachineArn = stateMachineArn, StatusFilter = ''RUNNING''\<rparr>
      in callAwsService (ListExecutions parameters) (listExecutions p parameters now) now)"

definition getTriggerImagesPipeline :: "provider \<Rightarrow> string \<Rightarrow> nat \<Rightarrow> unit run" where
  "getTriggerImagesPipeline p imagePipelineArn now =
     callAwsService (StartImagePipelineExecution imagePipelineArn)
       (startImagePipelineExecution p imagePipelineArn now) now"

definition getCheckImagesPipelineStatus :: "provider \<Rightarrow> string \<Rightarrow> nat \<Rightarrow> string run" where
  "getCheckImagesPipelineStatus p versionArn now =
     next_state
       (callAwsService (ListImageBuildVersions versionArn)
          (listImageBuildVersions p versionArn now) now)
       (\<lambda>ImageSummaryList t.
          case ImageSummaryList of
            [] \<Rightarrow> Run (Raise (PathNotFound ''$.ImageSummaryList[0].State.Status'')) [] t
          | s # rest \<Rightarrow> Run (Next s) [] t)"

section \<open>Failover\<close>

text \<open>
  \<open>createFailoverStateMachine\<close>: a Pass state injects the AZ configurations, a Map with
  \<open>maxConcurrency: 6\<close> runs \<open>replaceRouteTask\<close> on each, and the Map's catch leads to the
  Fail state \<open>Failover\<close>. The state machine has no timeout.
\<close>

definition getAZConfigurations :: "AzConfiguration list \<Rightarrow> nat \<Rightarrow> AzConfiguration list run" where
  "getAZConfigurations azConfigurations now = Run (Next azConfigurations) [] now"

definition createFailoverStateMachine ::
  "map_policy \<Rightarrow> AzConfiguration list \<Rightarrow> provider \<Rightarrow> nat \<Rightarrow> execution" where
  "createFailoverStateMachine pol azConfigurations p t0 =
     runStateMachine
       (next_state (getAZConfigurations azConfigurations t0)
          (\<lambda>items now.
             addCatch (mapState pol 6 (getReplaceRouteWithNatGatewayTask p) items now)
               (createStateMachineFailState ''Failover'')))"

section \<open>ReplaceInstance\<close>

text \<open>
  The instance state check loop: \<open>WaitForRun\<close> (10 seconds), \<open>GetInstanceStateTask\<close>, then
  the Choice \<open>IsInstanceReady?\<close>: back to \<open>WaitForRun\<close> when \<open>InstanceStatuses[0]\<close> is not
  present, or when one of the two status checks is not \<open>ok\<close>; otherwise on to
  \<open>DisableSourceDestCheckTask\<close>. The loop ends at the latest when the execution's
  deadline is reached.
\<close>

function waitRunningInstanceLoop :: "provider \<Rightarrow> nat \<Rightarrow> string \<Rightarrow> nat \<Rightarrow> unit run" where
  "waitRunningInstanceLoop p deadline instanceId now =
     (case waitState 10 deadline now of
        Run (Halt c) evs t \<Rightarrow> Run (Halt c) evs t
      | Run (Raise e) evs t \<Rightarrow> Run (Raise e) evs t
      | Run (Next u) evs t \<Rightarrow>
          (case getInstanceStateTask p instanceId t of
             Run (Halt c) evs' t' \<Rightarrow> Run (Halt c) evs' t'
           | Run (Raise e) evs' t' \<Rightarrow> Run (Raise e) evs' t'
           | Run (Next InstanceStatuses) evs' t' \<Rightarrow>
               (case InstanceStatuses of
                  [] \<Rightarrow> after evs' (waitRunningInstanceLoop p deadline instanceId t')
                | s # rest \<Rightarrow>
                    if InstanceStatus s \<noteq> ''ok'' \<or> SystemStatus s \<noteq> ''ok''
                    then after evs' (waitRunningInstanceLoop p deadline instanceId t')
                    else after evs' (getDisableInstanceSourceDestCheckTask p instanceId t'))))"
  by pat_completeness auto
termination
  by (relation "measure (\<lambda>(p, deadline, instanceId, now). deadline - now)")
     (auto simp: waitState_def getInstanceStateTask_def callAwsService_def split: if_splits)

definition noOpState :: "nat \<Rightarrow> unit run" where
  "noOpState now = Run (Next ()) [] now"

text \<open>
  The terminate branch: the Choice \<open>AnyInstance?\<close> tests
  \<open>isPresent('$.NatInstances.Reservations[0]')\<close>; its default is the Pass state \<open>NoOp\<close>.
\<close>

definition terminateOldInstancesBranch ::
  "map_policy \<Rightarrow> provider \<Rightarrow> Reservation list \<Rightarrow> nat \<Rightarrow> unit run" where
  "terminateOldInstancesBranch pol p Reservations now =
     (if Reservations \<noteq> []
      then discard
             (mapState pol 6
                (\<lambda>item t.
                   next_state (getDisableInstanceTerminationProtectionTask p item t)
                     (getTerminateInstanceTask p))
                Reservations now)
      else noOpState now)"

definition GetSubnets :: "AzConfiguration list \<Rightarrow> nat \<Rightarrow> AzConfiguration list run" where
  "GetSubnets azConfigurations now = Run (Next azConfigurations) [] now"

definition natInstanceTypeName :: string where
  "natInstanceTypeName = ''c7gn.medium''"

definition createNewInstance ::
  "provider \<Rightarrow> string \<Rightarrow> nat \<Rightarrow> AzConfiguration \<Rightarrow> nat \<Rightarrow> unit run" where
  "createNewInstance p natInstancesSecurityGroup deadline item now =
     next_state (getNatInstancesImageTask p ''GetLatestNATImage'' deadline now)
       (\<lambda>imageId t.
          next_state (getRunInstanceTask p natInstancesSecurityGroup natInstanceTypeName item imageId t)
            (waitRunningInstanceLoop p deadline))"

definition createNewInstancesBranch ::
  "map_policy \<Rightarrow> AzConfiguration list \<Rightarrow> string \<Rightarrow> provider \<Rightarrow> nat \<Rightarrow> nat \<Rightarrow> unit run" where
  "createNewInstancesBranch pol azConfigurations natInstancesSecurityGroup p deadline now =
     next_state (GetSubnets azConfigurations now)
       (\<lambda>items t.
          discard (mapState pol 6 (createNewInstance p natInstancesSecurityGroup deadline) items t))"

text \<open>
  \<open>createReplaceInstanceStateMachine\<close>, with \<open>timeout: cdk.Duration.minutes(5)\<close>. The Choice
  \<open>AlreadyRunningStateMachine?\<close> tests \<open>isPresent('$.Executions[1]')\<close>.
\<close>

definition replaceInstanceStateMachineArn :: string where
  "replaceInstanceStateMachineArn =
     ''arn:aws:states:'' @ Aws_REGION @ '':'' @ Aws_ACCOUNT_ID @ '':stateMachine:''
       @ ''NATInstanceReplaceInstance''"

definition createReplaceInstanceStateMachine ::
  "map_policy \<Rightarrow> AzConfiguration list \<Rightarrow> string \<Rightarrow> provider \<Rightarrow> nat \<Rightarrow> execution" where
  "createReplaceInstanceStateMachine pol azConfigurations natInstancesSecurityGroup p t0 =
     (let timeout = t0 + 5 * 60
      in runStateMachine
           (next_state
              (addCatch (getStateMachineRunning p replaceInstanceStateMachineArn t0)
                 (createStateMachineFailState ''ReplaceInstance''))
              (\<lambda>Executions now.
                 if 1 < length Executions
                 then createStateMachineFailState ''AlreadyRunning'' now
                 else next_state
                        (addCatch
                           (startExecutionSync ''NATInstanceFailover''
                              (createFailoverStateMachine pol azConfigurations p)
                              (Some timeout) now)
                           (createStateMachineFailState ''ReplaceInstance''))
                        (\<lambda>u now.
                           next_state
                             (addCatch (getNatInstancesTask p now)
                                (createStateMachineFailState ''ReplaceInstance''))
                             (\<lambda>Reservations now.
                                addCatch
                                  (parallelState pol
                                     [terminateOldInstancesBranch pol p Reservations,
                                      createNewInstancesBranch pol azConfigurations
                                        natInstancesSecurityGroup p timeout]
                                     now)
                                  (createStateMachineFailState ''ReplaceInstance''))))))"

section \<open>Fallback\<close>

text \<open>
  The item processor of the Map over \<open>$.NatInstances.Reservations\<close>: the Pass state
  \<open>RawAZConfigurations\<close> reads the first instance of the reservation and attaches the AZ
  configurations; the Pass state \<open>GetDesiredRouteTableId\<close> keeps the configurations whose
  \<open>publicSubnetId\<close> equals the instance's subnet (the filter
  \<open>$.AzConfigurations.value[?(@.publicSubnetId == $.PublicSubnetId)]\<close>).
\<close>

record RawAZ =
  RawInstanceId :: string
  PublicSubnetId :: string
  AzConfigurations :: "AzConfiguration list"

definition RawAZConfigurations :: "AzConfiguration list \<Rightarrow> Reservation \<Rightarrow> nat \<Rightarrow> RawAZ run" where
  "RawAZConfigurations azConfigurations input now =
     (case Instances input of
        [] \<Rightarrow> Run (Raise (PathNotFound ''$.Instances[0].InstanceId'')) [] now
      | i # rest \<Rightarrow>
          Run (Next \<lparr>RawInstanceId = InstanceId i,
                     PublicSubnetId = SubnetId i,
                     AzConfigurations = azConfigurations\<rparr>) [] now)"

definition GetDesiredRouteTableId :: "RawAZ \<Rightarrow> nat \<Rightarrow> DesiredRouteTable run" where
  "GetDesiredRouteTableId input now =
     Run (Next \<lparr>DesiredInstanceId = RawInstanceId input,
                RouteTable = filter (\<lambda>az. publicSubnetId az = PublicSubnetId input)
                               (AzConfigurations input)\<rparr>) [] now"

definition replaceInstanceRoute ::
  "AzConfiguration list \<Rightarrow> provider \<Rightarrow> Reservation \<Rightarrow> nat \<Rightarrow> unit run" where
  "replaceInstanceRoute azConfigurations p item now =
     next_state (RawAZConfigurations azConfigurations item now)
       (\<lambda>raw t.
          next_state (GetDesiredRouteTableId raw t)
            (getReplaceRouteWithNatInstanceTask p))"

definition createFallbackStateMachine ::
  "map_policy \<Rightarrow> AzConfiguration list \<Rightarrow> provider \<Rightarrow> nat \<Rightarrow> execution" where
  "createFallbackStateMachine pol azConfigurations p t0 =
     runStateMachine
       (next_state
          (addCatch (getNatInstancesTask p t0) (createStateMachineFailState ''Fallback''))
          (\<lambda>Reservations now.
             addCatch (mapState pol 6 (replaceInstanceRoute azConfigurations p) Reservations now)
               (createStateMachineFailState ''Fallback'')))"

section \<open>Maintenance\<close>

record ImageRecipe =
  recipeName :: string
  recipeVersion :: string

definition toLocaleLowerCase :: "string \<Rightarrow> string" where
  "toLocaleLowerCase s =
     map (\<lambda>c. let n = (of_char c :: nat) in if 65 \<le> n \<and> n \<le> 90 then char_of (n + 32) else c) s"

text \<open>The ARN of the image version, built from the recipe's name and version.\<close>

definition imageVersionArn :: "ImageRecipe \<Rightarrow> string" where
  "imageVersionArn imageRecipe =
     (let imageVersion = toLocaleLowerCase (recipeName imageRecipe) @ ''/''
                           @ recipeVersion imageRecipe
      in ''arn:aws:imagebuilder:'' @ Aws_REGION @ '':'' @ Aws_ACCOUNT_ID
           @ '':image/'' @ imageVersion)"

text \<open>
  After the image is available: \<open>TriggerReplaceInstances\<close>, then \<open>TriggerFallback\<close>, both
  synchronous and both caught into the Fail state \<open>Generic\<close>.
\<close>

definition triggerReplaceInstances ::
  "map_policy \<Rightarrow> AzConfiguration list \<Rightarrow> string \<Rightarrow> provider \<Rightarrow> nat \<Rightarrow> nat \<Rightarrow> unit run" where
  "triggerReplaceInstances pol azConfigurations natInstancesSecurityGroup p deadline now =
     next_state
       (addCatch
          (startExecutionSync ''NATInstanceReplaceInstance''
             (createReplaceInstanceStateMachine pol azConfigurations natInstancesSecurityGroup p)
             (Some deadline) now)
          (createStateMachineFailState ''Generic''))
       (\<lambda>u t.
          addCatch
            (startExecutionSync ''NATInstanceFallback''
               (createFallbackStateMachine pol azConfigurations p) (Some deadline) t)
            (createStateMachineFailState ''Generic''))"

text \<open>
  The status loop: \<open>GetImagePipelineStatusTask\<close>, then the Choice \<open>Finished?\<close>: \<open>FAILED\<close>
  leads to the Fail state \<open>ImagePipeline\<close>; any status other than \<open>AVAILABLE\<close> leads to
  \<open>WaitToFetchStatusAgain\<close> (2 minutes) and back to the task.
\<close>

function imagePipelineStatusLoop ::
  "map_policy \<Rightarrow> AzConfiguration list \<Rightarrow> string \<Rightarrow> provider \<Rightarrow> string \<Rightarrow> nat \<Rightarrow> nat \<Rightarrow> unit run"
  where
  "imagePipelineStatusLoop pol azConfigurations sg p versionArn deadline now =
     (case addCatch (getCheckImagesPipelineStatus p versionArn now)
             (createStateMachineFailState ''Generic'') of
        Run (Halt c) evs t \<Rightarrow> Run (Halt c) evs t
      | Run (Raise e) evs t \<Rightarrow> Run (Raise e) evs t
      | Run (Next PipelineStatus) evs t \<Rightarrow>
          if PipelineStatus = ''FAILED''
          then after evs (createStateMachineFailState ''ImagePipeline'' t)
          else if PipelineStatus \<noteq> ''AVAILABLE''
          then (case waitState (2 * 60) deadline t of
                  Run (Halt c) evs' t' \<Rightarrow> Run (Halt c) (evs @ evs') t'
                | Run (Raise e) evs' t' \<Rightarrow> Run (Raise e) (evs @ evs') t'
                | Run (Next u) evs' t' \<Rightarrow>
                    after (evs @ evs')
                      (imagePipelineStatusLoop pol azConfigurations sg p versionArn deadline t'))
          else after evs (triggerReplaceInstances pol azConfigurations sg p deadline t))"
  by pat_completeness auto
termination
  by (relation "measure (\<lambda>(pol, azs, sg, p, arn, deadline, now). deadline - now)")
     (auto simp: waitState_def getCheckImagesPipelineStatus_def callAwsService_def
        next_state_def addCatch_def createStateMachineFailState_def Let_def
        split: if_splits sum.splits list.splits)

text \<open>
  \<open>createMaintenanceStateMachine\<close>, with \<open>timeout: cdk.Duration.minutes(60)\<close>. The Choice
  \<open>AlreadyRunning?\<close> fails when the status is neither \<open>AVAILABLE\<close> nor \<open>FAILED\<close>; otherwise
  the pipeline is triggered and \<open>WaitForPipelineToRun\<close> waits 10 minutes before the loop.
\<close>

definition createMaintenanceStateMachine ::
  "map_policy \<Rightarrow> AzConfiguration list \<Rightarrow> string \<Rightarrow> string \<Rightarrow> ImageRecipe \<Rightarrow> provider \<Rightarrow> nat
     \<Rightarrow> execution" where
  "createMaintenanceStateMachine pol azConfigurations natInstancesSecurityGroup imagePipelineArn
       imageRecipe p t0 =
     (let timeout = t0 + 60 * 60
      in runStateMachine
           (next_state
              (addCatch (getCheckImagesPipelineStatus p (imageVersionArn imageRecipe) t0)
                 (createStateMachineFailState ''Generic''))
              (\<lambda>PipelineStatus now.
                 if PipelineStatus \<noteq> ''AVAILABLE'' \<and> PipelineStatus \<noteq> ''FAILED''
                 then createStateMachineFailState ''AlreadyRunningPipeline'' now
                 else next_state
                        (addCatch (getTriggerImagesPipeline p imagePipelineArn now)
                           (createStateMachineFailState ''Generic''))
                        (\<lambda>u now.
                           next_state (waitState (10 * 60) timeout now)
                             (\<lambda>u now.
                                imagePipelineStatusLoop pol azConfigurations
                                  natInstancesSecurityGroup p (imageVersionArn imageRecipe)
                                  timeout now)))))"

section \<open>An example deployment\<close>

text \<open>
  Three availability zones (\<open>NUMBER_OF_AVAILABILITY_ZONES = 3\<close>), two NAT instances running
  from an earlier replacement, and a provider on which every call succeeds: a new instance
  reports no status on the first poll, \<open>initializing\<close> on the second and \<open>ok\<close> from the
  third on; the image build that the maintenance workflow triggers is available after
  half an hour.
\<close>

definition exampleZone :: "string \<Rightarrow> AzConfiguration" where
  "exampleZone letter =
     \<lparr>availabilityZone = ''eu-west-1'' @ letter,
      publicSubnetId = ''subnet-public-'' @ letter,
      natGatewayId = ''nat-'' @ letter,
      privateSubnetId = ''subnet-private-'' @ letter,
      privateRouteTableId = ''rtb-private-'' @ letter\<rparr>"

definition exampleZones :: "AzConfiguration list" where
  "exampleZones = [exampleZone ''a'', exampleZone ''b'', exampleZone ''c'']"

definition runningInstances :: "Reservation list" where
  "runningInstances =
     [\<lparr>Instances = [\<lparr>InstanceId = ''i-old-a'', SubnetId = ''subnet-public-a''\<rparr>]\<rparr>,
      \<lparr>Instances = [\<lparr>InstanceId = ''i-old-b'', SubnetId = ''subnet-public-b''\<rparr>]\<rparr>]"

text \<open>
  A listing whose first instance runs in a subnet that is the public subnet of no zone,
  followed by an instance in the public subnet of zone \<open>a\<close>.
\<close>

definition strayInstances :: "Reservation list" where
  "strayInstances =
     [\<lparr>Instances = [\<lparr>InstanceId = ''i-stray'', SubnetId = ''subnet-elsewhere''\<rparr>]\<rparr>,
      \<lparr>Instances = [\<lparr>InstanceId = ''i-old-a'', SubnetId = ''subnet-public-a''\<rparr>]\<rparr>]"


text \<open>
  A listing of one reservation whose first instance runs in the public subnet of zone
  \<open>a\<close> and whose second instance runs in a subnet that is the public subnet of no zone.
\<close>

definition hiddenStray :: "Reservation list" where
  "hiddenStray =
     [\<lparr>Instances = [\<lparr>InstanceId = ''i-old-a'', SubnetId = ''subnet-public-a''\<rparr>,
                    \<lparr>InstanceId = ''i-stray'', SubnetId = ''subnet-elsewhere''\<rparr>]\<rparr>]"

definition exampleRecipe :: ImageRecipe where
  "exampleRecipe = \<lparr>recipeName = ''NatInstance'', recipeVersion = ''0.1.0''\<rparr>"

definition healthyProvider :: provider where
  "healthyProvider =
     \<lparr>replaceRoute = (\<lambda>parameters t. Inr ()),
      describeInstances = (\<lambda>filters t. Inr runningInstances),
      latestImage = (\<lambda>name t. Inr ''ami-latest''),
      runInstances = (\<lambda>parameters t.
         Inr [\<lparr>InstanceId = ''i-new-in-'' @ NetworkInterfaceSubnetId parameters,
                SubnetId = NetworkInterfaceSubnetId parameters\<rparr>]),
      describeInstanceStatus = (\<lambda>ids t.
         if t < 20 then Inr []
         else if t < 30 then Inr [\<lparr>InstanceStatus = ''initializing'', SystemStatus = ''ok''\<rparr>]
         else Inr [\<lparr>InstanceStatus = ''ok'', SystemStatus = ''ok''\<rparr>]),
      modifyInstanceAttribute = (\<lambda>instanceId attribute t. Inr ()),
      terminateInstances = (\<lambda>ids t. Inr ()),
      listExecutions = (\<lambda>parameters t. Inr [''execution-self'']),
      startImagePipelineExecution = (\<lambda>arn t. Inr ()),
      listImageBuildVersions = (\<lambda>arn t.
         Inr [if t = 0 \<or> 1800 \<le> t then ''AVAILABLE'' else ''BUILDING''])\<rparr>"


text \<open>
  A provider on which the instance launched in zone \<open>a\<close> never reports a status.
\<close>

definition stuckInstanceProvider :: provider where
  "stuckInstanceProvider =
     healthyProvider\<lparr>describeInstanceStatus := \<lambda>ids t.
        if ids = [''i-new-in-subnet-public-a''] then Inr []
        else describeInstanceStatus healthyProvider ids t\<rparr>"

section \<open>Properties of the engine\<close>

lemma after_Run [simp]: "after evs (Run st evs' t) = Run st (evs @ evs') t"
  by (simp add: after_def)

lemma after_sel [simp]:
  "status (after evs r) = status r"
  "events (after evs r) = evs @ events r"
  "clock (after evs r) = clock r"
  by (cases r; simp)+

lemma next_state_Run [simp]:
  "next_state (Run (Next a) evs t) k = after evs (k a t)"
  "next_state (Run (Raise e) evs t) k = Run (Raise e) evs t"
  "next_state (Run (Halt c) evs t) k = Run (Halt c) evs t"
  by (simp_all add: next_state_def after_def)

lemma addCatch_Run [simp]:
  "statesALL e \<Longrightarrow> addCatch (Run (Raise e) evs t) handler = after evs (handler t)"
  "\<not> statesALL e \<Longrightarrow> addCatch (Run (Raise e) evs t) handler = Run (Raise e) evs t"
  "addCatch (Run (Next a) evs t) handler = Run (Next a) evs t"
  "addCatch (Run (Halt c) evs t) handler = Run (Halt c) evs t"
  by (simp_all add: addCatch_def after_def)

lemma discard_Run [simp]:
  "discard (Run (Next a) evs t) = Run (Next ()) evs t"
  "discard (Run (Raise e) evs t) = Run (Raise e) evs t"
  "discard (Run (Halt c) evs t) = Run (Halt c) evs t"
  by (simp_all add: discard_def)

lemma discard_sel [simp]:
  "events (discard r) = events r"
  "clock (discard r) = clock r"
  "(status (discard r) = Next u) = (\<exists>a. status r = Next a)"
  by (cases r; cases "status r"; simp)+

lemma runStateMachine_Run [simp]:
  "runStateMachine (Run (Next a) evs t) = Execution Succeeded evs t"
  "runStateMachine (Run (Raise e) evs t) = Execution (Failed (Uncaught e)) evs t"
  "runStateMachine (Run (Halt c) evs t) = Execution (Failed c) evs t"
  by (simp_all add: runStateMachine_def)

lemma runStateMachine_sel:
  "trace (runStateMachine r) = events r"
  "ended (runStateMachine r) = clock r"
  "outcome (runStateMachine r) =
     (case status r of Next a \<Rightarrow> Succeeded | Raise e \<Rightarrow> Failed (Uncaught e) | Halt c \<Rightarrow> Failed c)"
  by (cases r; cases "status r"; simp)+

lemma createStateMachineFailState_sel [simp]:
  "status (createStateMachineFailState ident now) = Halt (FailState ident)"
  "events (createStateMachineFailState ident now) = []"
  "clock (createStateMachineFailState ident now) = now"
  by (simp_all add: createStateMachineFailState_def)

lemma callAwsService_sel [simp]:
  "events (callAwsService call answer now) = [Api now call]"
  "clock (callAwsService call answer now) = now"
  "status (callAwsService call answer now)
     = (case answer of Inl e \<Rightarrow> Raise (TaskFailed e) | Inr v \<Rightarrow> Next v)"
  by (simp_all add: callAwsService_def)

subsection \<open>The runs of the items of a Map\<close>

lemma failureOf_None: "(failureOf r = None) = (\<exists>a. status r = Next a)"
  by (cases r; cases "status r"; simp)

lemma failureOf_Some:
  "failureOf r = Some (t, x) \<Longrightarrow> clock r = t \<and> status r = failWith x"
  by (cases r; cases "status r"; auto)

lemma firstFailure_None: "(firstFailure rs = None) = (\<forall>r\<in>set rs. failureOf r = None)"
proof (induction rs)
  case Nil
  then show ?case by simp
next
  case (Cons r rs)
  show ?case
  proof (cases "failureOf r")
    case None
    then show ?thesis using Cons.IH by simp
  next
    case (Some a)
    then show ?thesis by (cases a; cases "firstFailure rs") auto
  qed
qed

lemma firstFailure_origin:
  "firstFailure rs = Some a \<Longrightarrow> \<exists>r\<in>set rs. failureOf r = Some a"
proof (induction rs arbitrary: a)
  case Nil
  then show ?case by simp
next
  case (Cons r rs)
  show ?case
  proof (cases "failureOf r")
    case None
    then show ?thesis using Cons by simp
  next
    case (Some b)
    note b = Some
    show ?thesis
    proof (cases "firstFailure rs")
      case None
      then show ?thesis using b Cons.prems by simp
    next
      case (Some c)
      then show ?thesis using b Cons.prems Cons.IH[OF Some]
        by (cases b; cases c) (auto split: if_splits)
    qed
  qed
qed

lemma fold_max_const: "\<forall>t\<in>set ts. t = now \<Longrightarrow> fold max ts (now :: nat) = now"
  by (induction ts) simp_all

text \<open>
  The events of a Map are those events of its started items that lie before a cut; the
  cut does not separate two events of the same time.
\<close>

lemma joinItems_events:
  "\<exists>keep. events (joinItems pol now rs) = concat (map (\<lambda>r. filter keep (events r)) rs)
          \<and> (\<forall>a b. at a = at b \<longrightarrow> keep a = keep b)"
proof (cases "firstFailure rs")
  case None
  then have "events (joinItems pol now rs) = concat (map (\<lambda>r. filter (\<lambda>e. True) (events r)) rs)"
    by (simp add: joinItems_def)
  then show ?thesis by blast
next
  case (Some a)
  obtain tf x where a: "a = (tf, x)" by (cases a)
  show ?thesis
  proof (cases pol)
    case FailFast
    then have "events (joinItems pol now rs)
                 = concat (map (\<lambda>r. filter (\<lambda>e. at e \<le> tf) (events r)) rs)"
      using Some a by (simp add: joinItems_def)
    moreover have "\<forall>a b. at a = at b \<longrightarrow> (at a \<le> tf) = (at b \<le> tf)" by simp
    ultimately show ?thesis by blast
  next
    case WaitForAll
    then have "events (joinItems pol now rs)
                 = concat (map (\<lambda>r. filter (\<lambda>e. True) (events r)) rs)"
      using Some a by (simp add: joinItems_def)
    then show ?thesis by blast
  qed
qed

lemma joinItems_events_from_runs:
  "e \<in> set (events (joinItems pol now rs)) \<Longrightarrow> \<exists>r\<in>set rs. e \<in> set (events r)"
proof -
  assume e: "e \<in> set (events (joinItems pol now rs))"
  obtain keep where "events (joinItems pol now rs) = concat (map (\<lambda>r. filter keep (events r)) rs)"
    using joinItems_events[of pol now rs] by blast
  with e show ?thesis by auto
qed

lemma joinItems_same_instant:
  assumes "e \<in> set (events (joinItems pol now rs))"
  shows "\<exists>r\<in>set rs. e \<in> set (events r)
           \<and> (\<forall>e'\<in>set (events r). at e' = at e \<longrightarrow> e' \<in> set (events (joinItems pol now rs)))"
proof -
  obtain keep where
    ev: "events (joinItems pol now rs) = concat (map (\<lambda>r. filter keep (events r)) rs)"
    and same: "\<forall>a b. at a = at b \<longrightarrow> keep a = keep b"
    using joinItems_events[of pol now rs] by blast
  from assms ev obtain r where r: "r \<in> set rs" and e: "e \<in> set (events r)" and k: "keep e"
    by auto
  have "e' \<in> set (events (joinItems pol now rs))"
    if "e' \<in> set (events r)" "at e' = at e" for e'
  proof -
    have "keep e'" using same that(2) k by blast
    then show ?thesis using that(1) r ev by auto
  qed
  then show ?thesis using r e by blast
qed

lemma joinItems_all_next:
  assumes "\<forall>r\<in>set rs. \<exists>a. status r = Next a"
  shows "joinItems pol now rs
           = Run (Next (concat (map outputOf rs))) (concat (map events rs))
               (fold max (map clock rs) now)"
proof -
  have "firstFailure rs = None"
    using assms by (simp add: firstFailure_None failureOf_None)
  then show ?thesis by (simp add: joinItems_def)
qed

lemma joinItems_failure_origin:
  assumes "status (joinItems pol now rs) = failWith x"
  shows "\<exists>r\<in>set rs. status r = failWith x"
proof (cases "firstFailure rs")
  case None
  then have "status (joinItems pol now rs) = Next (concat (map outputOf rs))"
    by (simp add: joinItems_def)
  with assms show ?thesis by (cases x) simp_all
next
  case (Some a)
  obtain tf y where a: "a = (tf, y)" by (cases a)
  from firstFailure_origin[OF Some] obtain r where r: "r \<in> set rs" "failureOf r = Some (tf, y)"
    using a by blast
  then have ry: "status r = failWith y" using failureOf_Some by blast
  have inj: "\<And>u v. (failWith u :: 'a list status) = failWith v \<Longrightarrow> (failWith u :: 'a status) = failWith v"
    by (case_tac u; case_tac v) simp_all
  show ?thesis
  proof (cases pol)
    case FailFast
    then have "status (joinItems pol now rs) = failWith y"
      using Some a by (simp add: joinItems_def)
    then have "(failWith y :: 'a status) = failWith x" using assms inj by metis
    then show ?thesis using r ry by auto
  next
    case WaitForAll
    show ?thesis
    proof (cases "firstFailure (filter isHalted rs)")
      case None
      then have "status (joinItems pol now rs) = failWith y"
        using Some a WaitForAll by (simp add: joinItems_def)
      then have "(failWith y :: 'a status) = failWith x" using assms inj by metis
      then show ?thesis using r ry by auto
    next
      case h: (Some b)
      obtain th z where b: "b = (th, z)" by (cases b)
      from firstFailure_origin[OF h] obtain r' where
        r': "r' \<in> set rs" "failureOf r' = Some (th, z)"
        using b by auto
      then have rz: "status r' = failWith z" using failureOf_Some by blast
      have "status (joinItems pol now rs) = failWith z"
        using Some a WaitForAll h b by (simp add: joinItems_def)
      then have "(failWith z :: 'a status) = failWith x" using assms inj by metis
      then show ?thesis using r' rz by auto
    qed
  qed
qed

lemma joinItems_not_Next:
  assumes "r \<in> set rs" and "\<forall>a. status r \<noteq> Next a"
  shows "\<exists>x. status (joinItems pol now rs) = failWith x"
proof -
  have "firstFailure rs \<noteq> None"
    using assms by (auto simp: firstFailure_None failureOf_None)
  then obtain tf y where "firstFailure rs = Some (tf, y)" by (cases "firstFailure rs") auto
  then show ?thesis
    by (cases pol) (auto simp: joinItems_def split: option.splits)
qed

subsection \<open>Which items start, and when\<close>

lemma startItems_origin:
  "r \<in> set (startItems m f now inflight failedBy xs) \<Longrightarrow> \<exists>x\<in>set xs. \<exists>t. r = f x t"
proof (induction xs arbitrary: inflight failedBy)
  case Nil
  then show ?case by simp
next
  case (Cons x xs)
  obtain st evs t where fx: "f x (itemStart m now inflight) = Run st evs t"
    by (cases "f x (itemStart m now inflight)") simp
  from Cons.prems have "r = f x (itemStart m now inflight)
      \<or> r \<in> set (startItems m f now (insort t (stillInFlight m inflight))
                    (earlier failedBy (failedAt st t)) xs)"
    by (auto simp: fx split: if_splits)
  then show ?case
  proof
    assume "r = f x (itemStart m now inflight)"
    then show ?thesis by auto
  next
    assume "r \<in> set (startItems m f now (insort t (stillInFlight m inflight))
                    (earlier failedBy (failedAt st t)) xs)"
    from Cons.IH[OF this] show ?thesis by auto
  qed
qed

text \<open>While the concurrency bound is not reached every item starts at the entry time.\<close>

lemma startItems_within_bound:
  "m = 0 \<or> length inflight + length xs \<le> m
     \<Longrightarrow> startItems m f now inflight failedBy xs = map (\<lambda>x. f x now) xs"
proof (induction xs arbitrary: inflight failedBy)
  case Nil
  then show ?case by simp
next
  case (Cons x xs)
  have free: "m = 0 \<or> length inflight < m" using Cons.prems by auto
  then have start: "itemStart m now inflight = now" and still: "stillInFlight m inflight = inflight"
    and started: "\<not> notStarted m now inflight failedBy"
    by (auto simp: itemStart_def stillInFlight_def notStarted_def split: option.splits)
  obtain st evs t where fx: "f x now = Run st evs t" by (cases "f x now") simp
  have "m = 0 \<or> length (insort t inflight) + length xs \<le> m" using Cons.prems by auto
  from Cons.IH[OF this] show ?case
    by (simp add: start still started fx)
qed

text \<open>A Map whose items take no time starts every item at the entry time.\<close>

lemma itemStart_now: "\<forall>e\<in>set inflight. e = now \<Longrightarrow> itemStart m now inflight = now"
  by (cases inflight) (auto simp: itemStart_def)

lemma stillInFlight_now:
  "\<forall>e\<in>set inflight. e = now \<Longrightarrow> \<forall>e\<in>set (insort now (stillInFlight m inflight)). e = now"
  by (cases inflight) (auto simp: stillInFlight_def set_insort_key)

lemma startItems_instant:
  assumes "\<forall>x\<in>set xs. clock (f x now) = now" and "\<forall>e\<in>set inflight. e = now"
  shows "\<exists>k. startItems m f now inflight failedBy xs = map (\<lambda>x. f x now) (take k xs)"
  using assms
proof (induction xs arbitrary: inflight failedBy)
  case Nil
  then show ?case by simp
next
  case (Cons x xs)
  show ?case
  proof (cases "notStarted m now inflight failedBy")
    case True
    then have "startItems m f now inflight failedBy (x # xs) = map (\<lambda>x. f x now) (take 0 (x # xs))"
      by simp
    then show ?thesis by blast
  next
    case False
    obtain st evs where fx: "f x now = Run st evs now"
      using Cons.prems(1) by (cases "f x now") simp
    from Cons.IH[OF _ stillInFlight_now[OF Cons.prems(2)]] Cons.prems(1)
    obtain k where "startItems m f now (insort now (stillInFlight m inflight))
                      (earlier failedBy (failedAt st now)) xs
                    = map (\<lambda>x. f x now) (take k xs)"
      by fastforce
    then have "startItems m f now inflight failedBy (x # xs)
                 = map (\<lambda>x. f x now) (take (Suc k) (x # xs))"
      using False by (simp add: itemStart_now[OF Cons.prems(2)] fx)
    then show ?thesis by blast
  qed
qed

lemma startItems_instant_all_next:
  assumes "\<forall>x\<in>set xs. \<exists>a evs. f x now = Run (Next a) evs now" and "\<forall>e\<in>set inflight. e = now"
  shows "startItems m f now inflight None xs = map (\<lambda>x. f x now) xs"
  using assms
proof (induction xs arbitrary: inflight)
  case Nil
  then show ?case by simp
next
  case (Cons x xs)
  obtain a evs where fx: "f x now = Run (Next a) evs now"
    using Cons.prems(1) by auto
  have "startItems m f now (insort now (stillInFlight m inflight)) None xs
          = map (\<lambda>x. f x now) xs"
    using Cons.IH[OF _ stillInFlight_now[OF Cons.prems(2)]] Cons.prems(1) by simp
  then show ?case
    by (simp add: itemStart_now[OF Cons.prems(2)] fx notStarted_def)
qed

lemma startItems_instant_failure:
  assumes "\<forall>x\<in>set xs. clock (f x now) = now" and "\<forall>e\<in>set inflight. e = now"
    and "x \<in> set xs" and "\<forall>a. status (f x now) \<noteq> Next a"
  shows "\<exists>r\<in>set (startItems m f now inflight None xs). \<forall>a. status r \<noteq> Next a"
  using assms
proof (induction xs arbitrary: inflight)
  case Nil
  then show ?case by simp
next
  case (Cons y ys)
  obtain st evs where fy: "f y now = Run st evs now"
    using Cons.prems(1) by (cases "f y now") simp
  have unfold: "startItems m f now inflight None (y # ys)
      = Run st evs now # startItems m f now (insort now (stillInFlight m inflight))
                           (earlier None (failedAt st now)) ys"
    by (simp add: itemStart_now[OF Cons.prems(2)] fy notStarted_def)
  show ?case
  proof (cases st)
    case (Next a)
    then have "x \<noteq> y" using Cons.prems(4) fy by auto
    then have "x \<in> set ys" using Cons.prems(3) by simp
    have "\<forall>x\<in>set ys. clock (f x now) = now" using Cons.prems(1) by simp
    from Cons.IH[of "insort now (stillInFlight m inflight)", OF this
        stillInFlight_now[OF Cons.prems(2)] \<open>x \<in> set ys\<close> Cons.prems(4)]
    obtain r where "r \<in> set (startItems m f now (insort now (stillInFlight m inflight)) None ys)"
      "\<forall>a. status r \<noteq> Next a"
      by blast
    then show ?thesis using unfold Next by auto
  next
    case (Raise e)
    then show ?thesis using unfold by auto
  next
    case (Halt c)
    then show ?thesis using unfold by auto
  qed
qed

subsection \<open>The Map state\<close>

text \<open>Every event of a Map comes from one of its items.\<close>

lemma mapItems_events_from_items:
  "e \<in> set (events (mapItems pol m f now inflight xs))
     \<Longrightarrow> \<exists>x\<in>set xs. \<exists>t. e \<in> set (events (f x t))"
proof -
  assume "e \<in> set (events (mapItems pol m f now inflight xs))"
  then obtain r where "r \<in> set (startItems m f now inflight None xs)" "e \<in> set (events r)"
    unfolding mapItems_def using joinItems_events_from_runs by blast
  then show ?thesis using startItems_origin by blast
qed

text \<open>
  An event of a Map is an event of one of its items, and whatever that item logged at the
  same time is an event of the Map as well.
\<close>

lemma mapItems_same_instant:
  assumes "e \<in> set (events (mapItems pol m f now inflight xs))"
  shows "\<exists>x\<in>set xs. \<exists>t. e \<in> set (events (f x t))
           \<and> (\<forall>e'\<in>set (events (f x t)). at e' = at e
                 \<longrightarrow> e' \<in> set (events (mapItems pol m f now inflight xs)))"
proof -
  from joinItems_same_instant[OF assms[unfolded mapItems_def]]
  obtain r where r: "r \<in> set (startItems m f now inflight None xs)" "e \<in> set (events r)"
    and same: "\<forall>e'\<in>set (events r). at e' = at e
                 \<longrightarrow> e' \<in> set (events (mapItems pol m f now inflight xs))"
    unfolding mapItems_def by blast
  from startItems_origin[OF r(1)] obtain x t where "x \<in> set xs" "r = f x t" by blast
  then show ?thesis using r(2) same by blast
qed

lemma mapItems_all_next:
  assumes "\<forall>x\<in>set xs. f x now = Run (Next (g x)) (ev x) now"
    and "\<forall>e\<in>set inflight. e = now"
  shows "mapItems pol m f now inflight xs = Run (Next (map g xs)) (concat (map ev xs)) now"
proof -
  have "\<forall>x\<in>set xs. \<exists>a evs. f x now = Run (Next a) evs now" using assms(1) by blast
  from startItems_instant_all_next[of xs f now inflight m, OF this assms(2)]
  have rs: "startItems m f now inflight None xs = map (\<lambda>x. Run (Next (g x)) (ev x) now) xs"
    using assms(1) by simp
  have out: "concat (map outputOf (map (\<lambda>x. Run (Next (g x)) (ev x) now) xs)) = map g xs"
    by (induction xs) simp_all
  have "joinItems pol now (map (\<lambda>x. Run (Next (g x)) (ev x) now) xs)
          = Run (Next (map g xs)) (concat (map ev xs)) now"
    by (subst joinItems_all_next) (simp_all add: out comp_def fold_max_const)
  then show ?thesis by (simp add: mapItems_def rs)
qed

lemma mapItems_instant_clock:
  assumes "\<forall>x\<in>set xs. clock (f x now) = now"
    and "\<forall>e\<in>set inflight. e = now"
  shows "clock (mapItems pol m f now inflight xs) = now"
proof -
  let ?rs = "startItems m f now inflight None xs"
  obtain k where k: "?rs = map (\<lambda>x. f x now) (take k xs)"
    using startItems_instant[of xs f now inflight m None, OF assms] by blast
  have clocks: "\<forall>r\<in>set ?rs. clock r = now"
    using assms(1) unfolding k by (auto dest: in_set_takeD)
  then have mx: "fold max (map clock ?rs) now = now"
    by (simp add: fold_max_const)
  show ?thesis
  proof (cases "firstFailure ?rs")
    case None
    then show ?thesis by (simp add: mapItems_def joinItems_def mx)
  next
    case (Some a)
    obtain tf y where a: "a = (tf, y)" by (cases a)
    from firstFailure_origin[OF Some] clocks have "tf = now"
      using a failureOf_Some by fastforce
    then show ?thesis using Some a mx
      by (cases pol) (simp_all add: mapItems_def joinItems_def)
  qed
qed

text \<open>A Map fails when one of its items, all taking no time, does.\<close>

lemma mapItems_instant_fails:
  assumes "\<forall>x\<in>set xs. clock (f x now) = now" and "\<forall>e\<in>set inflight. e = now"
    and "x \<in> set xs" and "\<forall>a. status (f x now) \<noteq> Next a"
  shows "\<exists>y. status (mapItems pol m f now inflight xs) = failWith y
             \<and> (\<exists>x'\<in>set xs. status (f x' now) = failWith y)"
proof -
  let ?rs = "startItems m f now inflight None xs"
  from startItems_instant_failure[of xs f now inflight x m, OF assms]
  obtain r where "r \<in> set ?rs" "\<forall>a. status r \<noteq> Next a" by blast
  from joinItems_not_Next[OF this] obtain y where
    y: "status (joinItems pol now ?rs) = failWith y" by blast
  from joinItems_failure_origin[OF y] obtain r' where
    r': "r' \<in> set ?rs" "status r' = failWith y" by blast
  obtain k where "?rs = map (\<lambda>x. f x now) (take k xs)"
    using startItems_instant[of xs f now inflight m None, OF assms(1,2)] by blast
  with r'(1) obtain x' where "x' \<in> set xs" "r' = f x' now"
    by (auto dest: in_set_takeD)
  then show ?thesis using y r'(2) unfolding mapItems_def by blast
qed

lemma next_state_sel:
  "status (next_state r k) =
     (case status r of Next a \<Rightarrow> status (k a (clock r)) | Raise e \<Rightarrow> Raise e | Halt c \<Rightarrow> Halt c)"
  "events (next_state r k) =
     (case status r of Next a \<Rightarrow> events r @ events (k a (clock r)) | Raise e \<Rightarrow> events r
      | Halt c \<Rightarrow> events r)"
  "clock (next_state r k) =
     (case status r of Next a \<Rightarrow> clock (k a (clock r)) | Raise e \<Rightarrow> clock r | Halt c \<Rightarrow> clock r)"
  by (cases r; cases "status r"; simp)+

lemma addCatch_sel:
  "status (addCatch r h) =
     (case status r of
        Raise e \<Rightarrow> if statesALL e then status (h (clock r)) else Raise e
      | Next a \<Rightarrow> Next a | Halt c \<Rightarrow> Halt c)"
  "events (addCatch r h) =
     (case status r of
        Raise e \<Rightarrow> if statesALL e then events r @ events (h (clock r)) else events r
      | Next a \<Rightarrow> events r | Halt c \<Rightarrow> events r)"
  "clock (addCatch r h) =
     (case status r of
        Raise e \<Rightarrow> if statesALL e then clock (h (clock r)) else clock r
      | Next a \<Rightarrow> clock r | Halt c \<Rightarrow> clock r)"
  by (cases r; cases "status r"; simp)+

section \<open>Failover\<close>

lemma failover_sel:
  "outcome (createFailoverStateMachine pol azs p t0) =
     (case status (mapState pol 6 (getReplaceRouteWithNatGatewayTask p) azs t0) of
        Next ys \<Rightarrow> Succeeded
      | Raise e \<Rightarrow> if statesALL e then Failed (FailState ''Failover'') else Failed (Uncaught e)
      | Halt c \<Rightarrow> Failed c)"
  "trace (createFailoverStateMachine pol azs p t0) =
     events (mapState pol 6 (getReplaceRouteWithNatGatewayTask p) azs t0)"
  "ended (createFailoverStateMachine pol azs p t0) =
     clock (mapState pol 6 (getReplaceRouteWithNatGatewayTask p) azs t0)"
  by (simp_all add: createFailoverStateMachine_def getAZConfigurations_def
      runStateMachine_sel addCatch_sel split: status.splits)

lemma replaceRouteWithNatGateway_instant:
  "clock (getReplaceRouteWithNatGatewayTask p az t) = t"
  "status (getReplaceRouteWithNatGatewayTask p az t) \<noteq> Halt c"
  "status (getReplaceRouteWithNatGatewayTask p az t) = Raise e \<Longrightarrow> statesALL e"
  by (auto simp: getReplaceRouteWithNatGatewayTask_def Let_def split: sum.splits)

lemma failover_ended: "ended (createFailoverStateMachine pol azs p t0) = t0"
  unfolding failover_sel mapState_def
  by (rule mapItems_instant_clock) (simp_all add: replaceRouteWithNatGateway_instant(1))

lemma failover_trace_routes:
  assumes "e \<in> set (trace (createFailoverStateMachine pol azs p t0))"
  shows "\<exists>t rp. e = Api t (ReplaceRoute rp)"
proof -
  from assms obtain x t where "e \<in> set (events (getReplaceRouteWithNatGatewayTask p x t))"
    unfolding failover_sel mapState_def using mapItems_events_from_items by fast
  then show ?thesis
    by (auto simp: getReplaceRouteWithNatGatewayTask_def Let_def)
qed

text \<open>
  Claim C3. For every non-empty list of zones, a Failover execution started at \<open>t0\<close>: if
  every route replacement succeeds, the execution succeeds and the calls it issued are
  exactly one \<open>replaceRoute\<close> per zone, in the zones' order, each setting the default
  route \<open>0.0.0.0/0\<close> of the zone's private route table to the zone's NAT gateway; if the
  replacement of some zone fails, the execution ends in the Fail state \<open>Failover\<close>. Both
  hold under either Map policy.
\<close>

theorem failover_replaces_every_route:
  fixes azConfigurations :: "AzConfiguration list"
  defines "route \<equiv> (\<lambda>az. \<lparr>DestinationCidrBlock = ''0.0.0.0/0'',
                            RouteNatGatewayId = Some (natGatewayId az),
                            RouteInstanceId = None,
                            RouteTableId = privateRouteTableId az\<rparr>)"
  assumes "azConfigurations \<noteq> []"
  shows "((\<forall>az\<in>set azConfigurations. replaceRoute p (route az) t0 = Inr ()) \<longrightarrow>
            outcome (createFailoverStateMachine pol azConfigurations p t0) = Succeeded \<and>
            trace (createFailoverStateMachine pol azConfigurations p t0)
              = map (\<lambda>az. Api t0 (ReplaceRoute (route az))) azConfigurations) \<and>
         ((\<exists>az\<in>set azConfigurations. \<exists>e. replaceRoute p (route az) t0 = Inl e) \<longrightarrow>
            outcome (createFailoverStateMachine pol azConfigurations p t0)
              = Failed (FailState ''Failover''))"
proof (intro conjI impI)
  let ?f = "getReplaceRouteWithNatGatewayTask p"
  assume ok: "\<forall>az\<in>set azConfigurations. replaceRoute p (route az) t0 = Inr ()"
  have items: "\<forall>az\<in>set azConfigurations.
      ?f az t0 = Run (Next ()) ([Api t0 (ReplaceRoute (route az))]) t0"
    using ok by (simp add: getReplaceRouteWithNatGatewayTask_def callAwsService_def route_def Let_def)
  have m: "mapState pol 6 ?f azConfigurations t0
      = Run (Next (map (\<lambda>az. ()) azConfigurations))
          (concat (map (\<lambda>az. [Api t0 (ReplaceRoute (route az))]) azConfigurations)) t0"
    unfolding mapState_def
    using mapItems_all_next[of azConfigurations ?f t0 "\<lambda>az. ()"
        "\<lambda>az. [Api t0 (ReplaceRoute (route az))]" "[]" pol 6] items
    by simp
  have c: "concat (map (\<lambda>az. [Api t0 (ReplaceRoute (route az))]) azConfigurations)
      = map (\<lambda>az. Api t0 (ReplaceRoute (route az))) azConfigurations"
    by (induction azConfigurations) simp_all
  show "outcome (createFailoverStateMachine pol azConfigurations p t0) = Succeeded"
    by (simp add: failover_sel m)
  show "trace (createFailoverStateMachine pol azConfigurations p t0)
              = map (\<lambda>az. Api t0 (ReplaceRoute (route az))) azConfigurations"
    by (simp add: failover_sel m c)
next
  let ?f = "getReplaceRouteWithNatGatewayTask p"
  assume bad: "\<exists>az\<in>set azConfigurations. \<exists>e. replaceRoute p (route az) t0 = Inl e"
  have inst: "\<forall>az\<in>set azConfigurations. clock (?f az t0) = t0"
    by (simp add: replaceRouteWithNatGateway_instant(1))
  from bad obtain az e where az: "az \<in> set azConfigurations"
    and e: "replaceRoute p (route az) t0 = Inl e" by blast
  have "status (?f az t0) = Raise (TaskFailed e)"
    using e by (simp add: getReplaceRouteWithNatGatewayTask_def route_def Let_def)
  then have "\<forall>a. status (?f az t0) \<noteq> Next a" by simp
  from mapItems_instant_fails[of azConfigurations ?f t0 "[]" az pol 6, OF inst _ az this]
  obtain y az' where y: "status (mapState pol 6 ?f azConfigurations t0) = failWith y"
    and az': "status (?f az' t0) = failWith y"
    unfolding mapState_def by auto
  obtain e' where "y = Raised e'" "statesALL e'"
    using az' replaceRouteWithNatGateway_instant(2,3)[of p az' t0]
    by (cases y) auto
  then show "outcome (createFailoverStateMachine pol azConfigurations p t0)
              = Failed (FailState ''Failover'')"
    using y by (simp add: failover_sel)
qed

theorem failover_replaces_every_route_witness:
  "(outcome (createFailoverStateMachine FailFast exampleZones healthyProvider 0) = Succeeded
    \<and> trace (createFailoverStateMachine FailFast exampleZones healthyProvider 0)
        = map (\<lambda>az. Api 0 (ReplaceRoute \<lparr>DestinationCidrBlock = ''0.0.0.0/0'',
                            RouteNatGatewayId = Some (natGatewayId az),
                            RouteInstanceId = None,
                            RouteTableId = privateRouteTableId az\<rparr>)) exampleZones)
   \<and> outcome (createFailoverStateMachine WaitForAll exampleZones
        (healthyProvider\<lparr>replaceRoute := \<lambda>parameters t.
            if RouteTableId parameters = ''rtb-private-b''
            then Inl ''Ec2.Ec2Exception'' else Inr ()\<rparr>) 0)
      = Failed (FailState ''Failover'')"
  using failover_replaces_every_route[where azConfigurations = exampleZones
            and p = healthyProvider and ?t0.0 = 0 and pol = FailFast]
        failover_replaces_every_route[where azConfigurations = exampleZones
            and p = "healthyProvider\<lparr>replaceRoute := \<lambda>parameters t.
                       if RouteTableId parameters = ''rtb-private-b''
                       then Inl ''Ec2.Ec2Exception'' else Inr ()\<rparr>"
            and ?t0.0 = 0 and pol = WaitForAll]
  by (simp add: exampleZones_def exampleZone_def healthyProvider_def)

section \<open>ReplaceInstance\<close>

lemma trigger_failover:
  "startExecutionSync ''NATInstanceFailover'' (createFailoverStateMachine pol azs p)
      (Some (t0 + 300)) t0
   = Run (case outcome (createFailoverStateMachine pol azs p t0) of
            Succeeded \<Rightarrow> Next () | Failed c \<Rightarrow> Raise (ExecutionFailed ''NATInstanceFailover''))
       (ExecutionStarted t0 ''NATInstanceFailover''
          # trace (createFailoverStateMachine pol azs p t0)
          @ [ExecutionEnded t0 ''NATInstanceFailover''
               (outcome (createFailoverStateMachine pol azs p t0))])
       t0"
proof -
  obtain out tr where fo: "createFailoverStateMachine pol azs p t0 = Execution out tr t0"
    using failover_ended[of pol azs p t0]
    by (cases "createFailoverStateMachine pol azs p t0") simp
  show ?thesis
    by (simp add: startExecutionSync_def childFinished_def fo)
qed

text \<open>
  The three shapes of a ReplaceInstance execution: stopped at the guard, stopped by a
  failed Failover, or past Failover and on to the instance listing.
\<close>

lemma replace_shape:
  fixes pol azs sg p t0
  defines "ex \<equiv> createReplaceInstanceStateMachine pol azs sg p t0"
    and "fo \<equiv> createFailoverStateMachine pol azs p t0"
    and "L \<equiv> Api t0 (ListExecutions \<lparr>StateMachineArn = replaceInstanceStateMachineArn,
                                        StatusFilter = ''RUNNING''\<rparr>)"
  shows "(outcome ex \<noteq> Succeeded \<and> trace ex = [L]
            \<and> (\<forall>es. listExecutions p \<lparr>StateMachineArn = replaceInstanceStateMachineArn,
                                   StatusFilter = ''RUNNING''\<rparr> t0 = Inr es \<longrightarrow> 1 < length es))
       \<or> (outcome fo \<noteq> Succeeded \<and> outcome ex = Failed (FailState ''ReplaceInstance'')
            \<and> trace ex = L # ExecutionStarted t0 ''NATInstanceFailover'' # trace fo
                          @ [ExecutionEnded t0 ''NATInstanceFailover'' (outcome fo)])
       \<or> (outcome fo = Succeeded
            \<and> (\<exists>es. listExecutions p \<lparr>StateMachineArn = replaceInstanceStateMachineArn,
                                   StatusFilter = ''RUNNING''\<rparr> t0 = Inr es \<and> \<not> 1 < length es)
            \<and> (\<exists>fs rest. trace ex = L # ExecutionStarted t0 ''NATInstanceFailover'' # trace fo
                          @ ExecutionEnded t0 ''NATInstanceFailover'' Succeeded
                          # Api t0 (DescribeInstances fs) # rest))"
proof (cases "listExecutions p \<lparr>StateMachineArn = replaceInstanceStateMachineArn,
                                        StatusFilter = ''RUNNING''\<rparr> t0")
  case (Inl e)
  then show ?thesis
    by (simp add: ex_def L_def createReplaceInstanceStateMachine_def getStateMachineRunning_def
        callAwsService_def createStateMachineFailState_def Let_def)
next
  case (Inr es)
  show ?thesis
  proof (cases "1 < length es")
    case True
    then show ?thesis using Inr
      by (simp add: ex_def L_def createReplaceInstanceStateMachine_def getStateMachineRunning_def
          callAwsService_def createStateMachineFailState_def Let_def)
  next
    case False
    show ?thesis
    proof (cases "outcome fo")
      case Succeeded
      then show ?thesis using Inr False
        unfolding ex_def L_def createReplaceInstanceStateMachine_def fo_def
        by (simp add: getStateMachineRunning_def callAwsService_def
          createStateMachineFailState_def Let_def trigger_failover getNatInstancesTask_def
          runStateMachine_sel addCatch_sel
          split: sum.splits)
    next
      case (Failed c)
      then show ?thesis using Inr False
        unfolding ex_def L_def createReplaceInstanceStateMachine_def fo_def
        by (simp add: getStateMachineRunning_def callAwsService_def
          createStateMachineFailState_def Let_def trigger_failover)
    qed
  qed
qed

lemma two_members_length:
  assumes "a \<in> set xs" "b \<in> set xs" "a \<noteq> b"
  shows "1 < length xs"
proof -
  have "{a, b} \<subseteq> set xs" using assms by simp
  then have "card {a, b} \<le> card (set xs)" by (simp add: card_mono)
  moreover have "card {a, b} = 2" using assms(3) by simp
  moreover have "card (set xs) \<le> length xs" by (rule card_length)
  ultimately show ?thesis by linarith
qed

text \<open>
  Claim C2. If the listing of running executions of the ReplaceInstance state machine
  holds the caller and another execution, the execution ends in the Fail state
  \<open>AlreadyRunning\<close>, and the listing is the only call it issued: no provider mutation has
  been performed.
\<close>

theorem replacement_singleton_guard:
  assumes "listExecutions p \<lparr>StateMachineArn = replaceInstanceStateMachineArn,
                              StatusFilter = ''RUNNING''\<rparr> t0 = Inr executions"
    and "self \<in> set executions" and "other \<in> set executions" and "other \<noteq> self"
  shows "outcome (createReplaceInstanceStateMachine pol azConfigurations sg p t0)
           = Failed (FailState ''AlreadyRunning'')
       \<and> trace (createReplaceInstanceStateMachine pol azConfigurations sg p t0)
           = [Api t0 (ListExecutions \<lparr>StateMachineArn = replaceInstanceStateMachineArn,
                                       StatusFilter = ''RUNNING''\<rparr>)]"
proof -
  have "1 < length executions"
    using two_members_length[of other executions self] assms(2,3,4) by simp
  then show ?thesis
    using assms(1)
    by (simp add: createReplaceInstanceStateMachine_def getStateMachineRunning_def
        callAwsService_def createStateMachineFailState_def Let_def)
qed

theorem replacement_singleton_guard_witness:
  "outcome (createReplaceInstanceStateMachine FailFast exampleZones ''sg-nat''
      (healthyProvider\<lparr>listExecutions := \<lambda>parameters t.
          Inr [''execution-self'', ''execution-other'']\<rparr>) 0)
     = Failed (FailState ''AlreadyRunning'')
   \<and> trace (createReplaceInstanceStateMachine FailFast exampleZones ''sg-nat''
      (healthyProvider\<lparr>listExecutions := \<lambda>parameters t.
          Inr [''execution-self'', ''execution-other'']\<rparr>) 0)
     = [Api 0 (ListExecutions \<lparr>StateMachineArn = replaceInstanceStateMachineArn,
                                StatusFilter = ''RUNNING''\<rparr>)]"
  using replacement_singleton_guard[where p = "healthyProvider\<lparr>listExecutions := \<lambda>parameters t.
          Inr [''execution-self'', ''execution-other'']\<rparr>" and ?t0.0 = 0
          and executions = "[''execution-self'', ''execution-other'']"
          and self = "''execution-self''" and other = "''execution-other''"
          and pol = FailFast and azConfigurations = exampleZones and sg = "''sg-nat''"]
  by simp

lemma prefix_before_event:
  assumes "front @ back = pre @ e # post" and "e \<notin> set front"
  shows "\<exists>us. pre = front @ us \<and> back = us @ e # post"
proof -
  from assms(1) obtain us where
    "(front = pre @ us \<and> us @ back = e # post) \<or> (front @ us = pre \<and> back = us @ e # post)"
    by (auto simp: append_eq_append_conv2)
  then show ?thesis
  proof
    assume a: "front = pre @ us \<and> us @ back = e # post"
    show ?thesis
    proof (cases us)
      case Nil
      with a show ?thesis by simp
    next
      case (Cons u us')
      with a have "e \<in> set front" by auto
      with assms(2) show ?thesis by simp
    qed
  next
    assume "front @ us = pre \<and> back = us @ e # post"
    then show ?thesis by auto
  qed
qed

text \<open>
  Claim C1. In every ReplaceInstance execution, each call that lists, terminates,
  modifies or launches instances comes after the whole trace of the Failover child and
  after the event that the child ended with success. If the guard passes and the Failover
  child fails, the execution ends in the Fail state \<open>ReplaceInstance\<close> and issues no
  terminate call.
\<close>

theorem replacement_failover_first:
  fixes pol azConfigurations sg p t0
  defines "ex \<equiv> createReplaceInstanceStateMachine pol azConfigurations sg p t0"
  shows "(\<forall>pre e post.
            trace ex = pre @ e # post
            \<and> ((\<exists>t ids. e = Api t (TerminateInstances ids))
               \<or> (\<exists>t fs. e = Api t (DescribeInstances fs))
               \<or> (\<exists>t i a. e = Api t (ModifyInstanceAttribute i a))
               \<or> (\<exists>t rp. e = Api t (RunInstances rp)))
            \<longrightarrow> ExecutionEnded t0 ''NATInstanceFailover'' Succeeded \<in> set pre
                \<and> set (trace (createFailoverStateMachine pol azConfigurations p t0)) \<subseteq> set pre)
       \<and> (\<forall>es. listExecutions p \<lparr>StateMachineArn = replaceInstanceStateMachineArn,
                                   StatusFilter = ''RUNNING''\<rparr> t0 = Inr es
              \<and> length es \<le> 1
              \<and> outcome (createFailoverStateMachine pol azConfigurations p t0) \<noteq> Succeeded
            \<longrightarrow> outcome ex = Failed (FailState ''ReplaceInstance'')
                \<and> (\<forall>t ids. Api t (TerminateInstances ids) \<notin> set (trace ex)))"
proof -
  define fo where "fo = createFailoverStateMachine pol azConfigurations p t0"
  define L where "L = Api t0 (ListExecutions \<lparr>StateMachineArn = replaceInstanceStateMachineArn,
                                        StatusFilter = ''RUNNING''\<rparr>)"
  have routes: "\<And>e. e \<in> set (trace fo) \<Longrightarrow> \<exists>t rp. e = Api t (ReplaceRoute rp)"
    unfolding fo_def by (rule failover_trace_routes)
  consider
    (guard) "outcome ex \<noteq> Succeeded" "trace ex = [L]"
       "\<forall>es. listExecutions p \<lparr>StateMachineArn = replaceInstanceStateMachineArn,
                                   StatusFilter = ''RUNNING''\<rparr> t0 = Inr es \<longrightarrow> 1 < length es"
  | (failed) "outcome fo \<noteq> Succeeded" "outcome ex = Failed (FailState ''ReplaceInstance'')"
       "trace ex = L # ExecutionStarted t0 ''NATInstanceFailover'' # trace fo
                          @ [ExecutionEnded t0 ''NATInstanceFailover'' (outcome fo)]"
  | (passed) fs rest where "outcome fo = Succeeded"
       "trace ex = L # ExecutionStarted t0 ''NATInstanceFailover'' # trace fo
                          @ ExecutionEnded t0 ''NATInstanceFailover'' Succeeded
                          # Api t0 (DescribeInstances fs) # rest"
    using replace_shape[of pol azConfigurations sg p t0]
    unfolding ex_def fo_def L_def by blast
  then show ?thesis
  proof cases
    case guard
    then show ?thesis unfolding fo_def[symmetric]
      by (auto simp: L_def Cons_eq_append_conv)
  next
    case failed
    have "\<And>e. e \<in> set (trace ex) \<Longrightarrow>
        \<not> ((\<exists>t ids. e = Api t (TerminateInstances ids))
               \<or> (\<exists>t fs. e = Api t (DescribeInstances fs))
               \<or> (\<exists>t i a. e = Api t (ModifyInstanceAttribute i a))
               \<or> (\<exists>t rp. e = Api t (RunInstances rp)))"
      using routes by (auto simp: failed(3) L_def)
    moreover have "\<And>pre e post. trace ex = pre @ e # post \<Longrightarrow> e \<in> set (trace ex)"
      by simp
    ultimately show ?thesis unfolding fo_def[symmetric]
      using failed(1,2) by blast
  next
    case passed
    let ?front = "L # ExecutionStarted t0 ''NATInstanceFailover'' # trace fo
                          @ [ExecutionEnded t0 ''NATInstanceFailover'' Succeeded]"
    have tr: "trace ex = ?front @ Api t0 (DescribeInstances fs) # rest"
      using passed(2) by simp
    have first: "\<forall>pre e post.
            trace ex = pre @ e # post
            \<and> ((\<exists>t ids. e = Api t (TerminateInstances ids))
               \<or> (\<exists>t fs. e = Api t (DescribeInstances fs))
               \<or> (\<exists>t i a. e = Api t (ModifyInstanceAttribute i a))
               \<or> (\<exists>t rp. e = Api t (RunInstances rp)))
            \<longrightarrow> ExecutionEnded t0 ''NATInstanceFailover'' Succeeded \<in> set pre
                \<and> set (trace fo) \<subseteq> set pre"
    proof (intro allI impI)
      fix pre e post
      assume h: "trace ex = pre @ e # post
            \<and> ((\<exists>t ids. e = Api t (TerminateInstances ids))
               \<or> (\<exists>t fs. e = Api t (DescribeInstances fs))
               \<or> (\<exists>t i a. e = Api t (ModifyInstanceAttribute i a))
               \<or> (\<exists>t rp. e = Api t (RunInstances rp)))"
      then have "e \<notin> set ?front"
        using routes by (auto simp: L_def)
      moreover have "?front @ (Api t0 (DescribeInstances fs) # rest) = pre @ e # post"
        using h tr by simp
      ultimately have "set ?front \<subseteq> set pre"
        using prefix_before_event[of ?front "Api t0 (DescribeInstances fs) # rest" pre e post]
        by auto
      then show "ExecutionEnded t0 ''NATInstanceFailover'' Succeeded \<in> set pre
                \<and> set (trace fo) \<subseteq> set pre"
        by auto
    qed
    show ?thesis unfolding fo_def[symmetric]
      using first passed(1) by simp
  qed
qed

theorem replacement_failover_first_witness:
  "(\<exists>pre e post.
      trace (createReplaceInstanceStateMachine FailFast exampleZones ''sg-nat'' healthyProvider 0)
        = pre @ e # post
      \<and> (\<exists>t ids. e = Api t (TerminateInstances ids))
      \<and> ExecutionEnded 0 ''NATInstanceFailover'' Succeeded \<in> set pre)
   \<and> outcome (createReplaceInstanceStateMachine FailFast exampleZones ''sg-nat''
        (healthyProvider\<lparr>replaceRoute := \<lambda>parameters t. Inl ''Ec2.Ec2Exception''\<rparr>) 0)
      = Failed (FailState ''ReplaceInstance'')"
proof -
  let ?ex = "createReplaceInstanceStateMachine FailFast exampleZones ''sg-nat'' healthyProvider 0"
  let ?bad = "healthyProvider\<lparr>replaceRoute := \<lambda>parameters t. Inl ''Ec2.Ec2Exception''\<rparr>"
  have tr: "trace ?ex = take 8 (trace ?ex) @ Api 0 (TerminateInstances [''i-old-a''])
                          # drop 9 (trace ?ex)"
    by code_simp
  have fo: "outcome (createFailoverStateMachine FailFast exampleZones ?bad 0) \<noteq> Succeeded"
    by code_simp
  have guard: "listExecutions ?bad \<lparr>StateMachineArn = replaceInstanceStateMachineArn,
                                   StatusFilter = ''RUNNING''\<rparr> 0 = Inr [''execution-self'']"
    by (simp add: healthyProvider_def)
  note main = replacement_failover_first[where pol = FailFast and azConfigurations = exampleZones
      and sg = "''sg-nat''" and ?t0.0 = 0]
  have "ExecutionEnded 0 ''NATInstanceFailover'' Succeeded \<in> set (take 8 (trace ?ex))"
    using main[where p = healthyProvider] tr by blast
  moreover have "outcome (createReplaceInstanceStateMachine FailFast exampleZones ''sg-nat'' ?bad 0)
      = Failed (FailState ''ReplaceInstance'')"
    using main[where p = ?bad] fo guard by simp
  ultimately show ?thesis using tr by blast
qed

section \<open>ReplaceInstance: the instance state check loop\<close>

declare waitRunningInstanceLoop.simps [simp del]

lemma waitRunningInstanceLoop_unfold:
  "waitRunningInstanceLoop p deadline i now =
     (if deadline \<le> now + 10 then Run (Halt Timeout) [] deadline
      else (case describeInstanceStatus p [i] (now + 10) of
              Inl e \<Rightarrow> Run (Raise (TaskFailed e)) [Api (now + 10) (DescribeInstanceStatus [i])]
                         (now + 10)
            | Inr [] \<Rightarrow>
                after [Api (now + 10) (DescribeInstanceStatus [i])]
                  (waitRunningInstanceLoop p deadline i (now + 10))
            | Inr (s # rest) \<Rightarrow>
                if InstanceStatus s \<noteq> ''ok'' \<or> SystemStatus s \<noteq> ''ok''
                then after [Api (now + 10) (DescribeInstanceStatus [i])]
                       (waitRunningInstanceLoop p deadline i (now + 10))
                else Run (case modifyInstanceAttribute p i (SetSourceDestCheck False) (now + 10) of
                            Inl e \<Rightarrow> Raise (TaskFailed e) | Inr v \<Rightarrow> Next v)
                       [Api (now + 10) (DescribeInstanceStatus [i]),
                        Api (now + 10) (ModifyInstanceAttribute i (SetSourceDestCheck False))]
                       (now + 10)))"
  by (subst waitRunningInstanceLoop.simps)
     (simp add: waitState_def getInstanceStateTask_def
        getDisableInstanceSourceDestCheckTask_def callAwsService_def
        split: sum.splits list.splits)

text \<open>
  The events of the status loop are polls of the instance, followed at most by the one
  call that disables the source/destination check; that call follows a poll that saw
  both checks \<open>ok\<close>.
\<close>

lemma waitRunningInstanceLoop_events:
  "\<exists>polls fin.
     events (waitRunningInstanceLoop p deadline i now)
       = map (\<lambda>t. Api t (DescribeInstanceStatus [i])) polls @ fin
     \<and> (fin = [] \<and> (\<forall>u. status (waitRunningInstanceLoop p deadline i now) \<noteq> Next u)
        \<or> (\<exists>t s rest. fin = [Api t (ModifyInstanceAttribute i (SetSourceDestCheck False))]
              \<and> t \<in> set polls
              \<and> describeInstanceStatus p [i] t = Inr (s # rest)
              \<and> InstanceStatus s = ''ok'' \<and> SystemStatus s = ''ok''))"
proof (induction p deadline i now rule: waitRunningInstanceLoop.induct)
  case (1 p deadline i now)
  let ?poll = "Api (now + 10) (DescribeInstanceStatus [i])"
  show ?case
  proof (cases "deadline \<le> now + 10")
    case True
    then have "events (waitRunningInstanceLoop p deadline i now) = map (\<lambda>t. Api t (DescribeInstanceStatus [i])) [] @ []"
      and "\<forall>u. status (waitRunningInstanceLoop p deadline i now) \<noteq> Next u"
      by (simp_all add: waitRunningInstanceLoop_unfold[of p deadline i now])
    then show ?thesis by blast
  next
    case False
    then have w: "waitState 10 deadline now = Run (Next ()) [] (now + 10)"
      by (simp add: waitState_def)
    show ?thesis
    proof (cases "describeInstanceStatus p [i] (now + 10)")
      case (Inl e)
      then have "events (waitRunningInstanceLoop p deadline i now)
                   = map (\<lambda>t. Api t (DescribeInstanceStatus [i])) [now + 10] @ []"
        and "\<forall>u. status (waitRunningInstanceLoop p deadline i now) \<noteq> Next u"
        using False by (simp_all add: waitRunningInstanceLoop_unfold[of p deadline i now])
      then show ?thesis by blast
    next
      case (Inr statuses)
      have g: "getInstanceStateTask p i (now + 10) = Run (Next statuses) [?poll] (now + 10)"
        using Inr by (simp add: getInstanceStateTask_def callAwsService_def)
      have again: "waitRunningInstanceLoop p deadline i now
                     = after [?poll] (waitRunningInstanceLoop p deadline i (now + 10))
            \<Longrightarrow> (\<exists>polls fin.
     events (waitRunningInstanceLoop p deadline i (now + 10))
       = map (\<lambda>t. Api t (DescribeInstanceStatus [i])) polls @ fin
     \<and> (fin = [] \<and> (\<forall>u. status (waitRunningInstanceLoop p deadline i (now + 10)) \<noteq> Next u)
        \<or> (\<exists>t s rest. fin = [Api t (ModifyInstanceAttribute i (SetSourceDestCheck False))]
              \<and> t \<in> set polls
              \<and> describeInstanceStatus p [i] t = Inr (s # rest)
              \<and> InstanceStatus s = ''ok'' \<and> SystemStatus s = ''ok''))) \<Longrightarrow> ?thesis"
      proof -
        assume eq: "waitRunningInstanceLoop p deadline i now
                     = after [?poll] (waitRunningInstanceLoop p deadline i (now + 10))"
        assume "\<exists>polls fin.
     events (waitRunningInstanceLoop p deadline i (now + 10))
       = map (\<lambda>t. Api t (DescribeInstanceStatus [i])) polls @ fin
     \<and> (fin = [] \<and> (\<forall>u. status (waitRunningInstanceLoop p deadline i (now + 10)) \<noteq> Next u)
        \<or> (\<exists>t s rest. fin = [Api t (ModifyInstanceAttribute i (SetSourceDestCheck False))]
              \<and> t \<in> set polls
              \<and> describeInstanceStatus p [i] t = Inr (s # rest)
              \<and> InstanceStatus s = ''ok'' \<and> SystemStatus s = ''ok''))"
        then obtain polls fin where
          ev: "events (waitRunningInstanceLoop p deadline i (now + 10))
                 = map (\<lambda>t. Api t (DescribeInstanceStatus [i])) polls @ fin"
          and fin: "fin = [] \<and> (\<forall>u. status (waitRunningInstanceLoop p deadline i (now + 10)) \<noteq> Next u)
        \<or> (\<exists>t s rest. fin = [Api t (ModifyInstanceAttribute i (SetSourceDestCheck False))]
              \<and> t \<in> set polls
              \<and> describeInstanceStatus p [i] t = Inr (s # rest)
              \<and> InstanceStatus s = ''ok'' \<and> SystemStatus s = ''ok'')"
          by blast
        have "events (waitRunningInstanceLoop p deadline i now)
                = map (\<lambda>t. Api t (DescribeInstanceStatus [i])) ((now + 10) # polls) @ fin"
          by (simp add: eq ev)
        moreover have "fin = [] \<and> (\<forall>u. status (waitRunningInstanceLoop p deadline i now) \<noteq> Next u)
        \<or> (\<exists>t s rest. fin = [Api t (ModifyInstanceAttribute i (SetSourceDestCheck False))]
              \<and> t \<in> set ((now + 10) # polls)
              \<and> describeInstanceStatus p [i] t = Inr (s # rest)
              \<and> InstanceStatus s = ''ok'' \<and> SystemStatus s = ''ok'')"
        proof -
          have st: "status (waitRunningInstanceLoop p deadline i now)
                      = status (waitRunningInstanceLoop p deadline i (now + 10))"
            by (simp add: eq)
          from fin show ?thesis
          proof
            assume "fin = [] \<and> (\<forall>u. status (waitRunningInstanceLoop p deadline i (now + 10)) \<noteq> Next u)"
            then show ?thesis using st by simp
          next
            assume "\<exists>t s rest. fin = [Api t (ModifyInstanceAttribute i (SetSourceDestCheck False))]
              \<and> t \<in> set polls
              \<and> describeInstanceStatus p [i] t = Inr (s # rest)
              \<and> InstanceStatus s = ''ok'' \<and> SystemStatus s = ''ok''"
            then obtain t s rest where "fin = [Api t (ModifyInstanceAttribute i (SetSourceDestCheck False))]
              \<and> t \<in> set ((now + 10) # polls)
              \<and> describeInstanceStatus p [i] t = Inr (s # rest)
              \<and> InstanceStatus s = ''ok'' \<and> SystemStatus s = ''ok''"
              by auto
            then show ?thesis by blast
          qed
        qed
        ultimately show ?thesis by blast
      qed
      show ?thesis
      proof (cases statuses)
        case Nil
        have "waitRunningInstanceLoop p deadline i now
                     = after [?poll] (waitRunningInstanceLoop p deadline i (now + 10))"
          using False Inr Nil by (simp add: waitRunningInstanceLoop_unfold[of p deadline i now])
        moreover note "1.IH"(1)[OF w refl g refl Nil]
        ultimately show ?thesis by (rule again)
      next
        case (Cons s rest)
        show ?thesis
        proof (cases "InstanceStatus s \<noteq> ''ok'' \<or> SystemStatus s \<noteq> ''ok''")
          case True
          have "waitRunningInstanceLoop p deadline i now
                     = after [?poll] (waitRunningInstanceLoop p deadline i (now + 10))"
            using False Inr Cons True
            by (simp add: waitRunningInstanceLoop_unfold[of p deadline i now])
          moreover note "1.IH"(2)[OF w refl g refl Cons True]
          ultimately show ?thesis by (rule again)
        next
          case ok: False
          have "events (waitRunningInstanceLoop p deadline i now)
                  = map (\<lambda>t. Api t (DescribeInstanceStatus [i])) [now + 10]
                    @ [Api (now + 10) (ModifyInstanceAttribute i (SetSourceDestCheck False))]"
            using False Inr Cons ok
            by (simp add: waitRunningInstanceLoop_unfold[of p deadline i now])
          moreover have "now + 10 \<in> set [now + 10]
              \<and> describeInstanceStatus p [i] (now + 10) = Inr (s # rest)
              \<and> InstanceStatus s = ''ok'' \<and> SystemStatus s = ''ok''"
            using Inr Cons ok by simp
          ultimately show ?thesis by blast
        qed
      qed
    qed
  qed
qed

lemma waitRunningInstanceLoop_event_kinds:
  assumes "e \<in> set (events (waitRunningInstanceLoop p deadline i now))"
  shows "(\<exists>t. e = Api t (DescribeInstanceStatus [i]))
       \<or> (\<exists>t. e = Api t (ModifyInstanceAttribute i (SetSourceDestCheck False)))"
proof -
  obtain polls fin where
    ev: "events (waitRunningInstanceLoop p deadline i now)
           = map (\<lambda>t. Api t (DescribeInstanceStatus [i])) polls @ fin"
    and fin: "fin = [] \<or> (\<exists>t. fin = [Api t (ModifyInstanceAttribute i (SetSourceDestCheck False))])"
    using waitRunningInstanceLoop_events[of p deadline i now] by blast
  from assms ev have "e \<in> set (map (\<lambda>t. Api t (DescribeInstanceStatus [i])) polls) \<or> e \<in> set fin"
    by simp
  then show ?thesis using fin by auto
qed

lemma waitRunningInstanceLoop_disable_after_ok:
  assumes "events (waitRunningInstanceLoop p deadline i now)
             = pre @ Api t (ModifyInstanceAttribute j (SetSourceDestCheck b)) # post"
  shows "j = i \<and> b = False
       \<and> (\<exists>s rest. Api t (DescribeInstanceStatus [i]) \<in> set pre
             \<and> describeInstanceStatus p [i] t = Inr (s # rest)
             \<and> InstanceStatus s = ''ok'' \<and> SystemStatus s = ''ok'')"
proof -
  let ?M = "Api t (ModifyInstanceAttribute j (SetSourceDestCheck b))"
  obtain polls fin where
    ev: "events (waitRunningInstanceLoop p deadline i now)
           = map (\<lambda>t. Api t (DescribeInstanceStatus [i])) polls @ fin"
    and fin: "fin = []
        \<or> (\<exists>t s rest. fin = [Api t (ModifyInstanceAttribute i (SetSourceDestCheck False))]
              \<and> t \<in> set polls
              \<and> describeInstanceStatus p [i] t = Inr (s # rest)
              \<and> InstanceStatus s = ''ok'' \<and> SystemStatus s = ''ok'')"
    using waitRunningInstanceLoop_events[of p deadline i now] by blast
  have notpoll: "?M \<notin> set (map (\<lambda>t. Api t (DescribeInstanceStatus [i])) polls)"
    by auto
  have "map (\<lambda>t. Api t (DescribeInstanceStatus [i])) polls @ fin = pre @ ?M # post"
    using assms ev by simp
  from prefix_before_event[OF this notpoll] obtain us where
    pre: "pre = map (\<lambda>t. Api t (DescribeInstanceStatus [i])) polls @ us"
    and f: "fin = us @ ?M # post"
    by blast
  from f fin obtain t' s rest where
    fin': "fin = [Api t' (ModifyInstanceAttribute i (SetSourceDestCheck False))]"
    and t': "t' \<in> set polls"
    and seen: "describeInstanceStatus p [i] t' = Inr (s # rest)"
      "InstanceStatus s = ''ok''" "SystemStatus s = ''ok''"
    by auto
  from f fin' have M: "?M = Api t' (ModifyInstanceAttribute i (SetSourceDestCheck False))"
    by (cases us) simp_all
  then have same: "t' = t" "j = i" "b = False" by simp_all
  have "Api t' (DescribeInstanceStatus [i]) \<in> set pre"
    using t' pre by auto
  then show ?thesis using seen same by blast
qed

text \<open>A poll on which both checks are \<open>ok\<close> is followed, at once, by the call that
  disables the source/destination check of the polled instance.\<close>

lemma waitRunningInstanceLoop_ok_poll_disables:
  assumes "Api t (DescribeInstanceStatus ids)
             \<in> set (events (waitRunningInstanceLoop p deadline i now))"
    and "describeInstanceStatus p ids t = Inr (s # rest)"
    and "InstanceStatus s = ''ok''" and "SystemStatus s = ''ok''"
  shows "Api t (ModifyInstanceAttribute i (SetSourceDestCheck False))
           \<in> set (events (waitRunningInstanceLoop p deadline i now))"
  using assms
proof (induction p deadline i now rule: waitRunningInstanceLoop.induct)
  case (1 p deadline i now)
  let ?poll = "Api (now + 10) (DescribeInstanceStatus [i])"
  note unfold = waitRunningInstanceLoop_unfold[of p deadline i now]
  show ?case
  proof (cases "deadline \<le> now + 10")
    case True
    then show ?thesis using "1.prems"(1) by (simp add: unfold)
  next
    case False
    then have w: "waitState 10 deadline now = Run (Next ()) [] (now + 10)"
      by (simp add: waitState_def)
    show ?thesis
    proof (cases "describeInstanceStatus p [i] (now + 10)")
      case (Inl e)
      then show ?thesis using False "1.prems"(1,2) by (auto simp: unfold)
    next
      case (Inr statuses)
      have g: "getInstanceStateTask p i (now + 10) = Run (Next statuses) [?poll] (now + 10)"
        using Inr by (simp add: getInstanceStateTask_def callAwsService_def)
      have again: ?thesis
        if eq: "waitRunningInstanceLoop p deadline i now
                  = after [?poll] (waitRunningInstanceLoop p deadline i (now + 10))"
          and notok: "\<not> (\<exists>s' rest'. statuses = s' # rest' \<and> InstanceStatus s' = ''ok''
                            \<and> SystemStatus s' = ''ok'')"
          and IH: "Api t (DescribeInstanceStatus ids)
                     \<in> set (events (waitRunningInstanceLoop p deadline i (now + 10)))
                   \<Longrightarrow> Api t (ModifyInstanceAttribute i (SetSourceDestCheck False))
                     \<in> set (events (waitRunningInstanceLoop p deadline i (now + 10)))"
      proof -
        from "1.prems"(1) eq have "Api t (DescribeInstanceStatus ids) = ?poll
            \<or> Api t (DescribeInstanceStatus ids)
                 \<in> set (events (waitRunningInstanceLoop p deadline i (now + 10)))"
          by simp
        then show ?thesis
        proof
          assume "Api t (DescribeInstanceStatus ids) = ?poll"
          then have "t = now + 10" "ids = [i]" by simp_all
          with "1.prems"(2,3,4) Inr notok show ?thesis by simp
        next
          assume "Api t (DescribeInstanceStatus ids)
                 \<in> set (events (waitRunningInstanceLoop p deadline i (now + 10)))"
          from IH[OF this] show ?thesis by (simp add: eq)
        qed
      qed
      show ?thesis
      proof (cases statuses)
        case Nil
        have eq: "waitRunningInstanceLoop p deadline i now
                     = after [?poll] (waitRunningInstanceLoop p deadline i (now + 10))"
          using False Inr Nil by (simp add: unfold)
        have IH: "Api t (DescribeInstanceStatus ids)
                     \<in> set (events (waitRunningInstanceLoop p deadline i (now + 10)))
                   \<Longrightarrow> Api t (ModifyInstanceAttribute i (SetSourceDestCheck False))
                     \<in> set (events (waitRunningInstanceLoop p deadline i (now + 10)))"
          using "1.IH"(1)[OF w refl g refl Nil _ "1.prems"(2,3,4)] by blast
        show ?thesis using again[OF eq _ IH] Nil by simp
      next
        case (Cons s' rest')
        show ?thesis
        proof (cases "InstanceStatus s' \<noteq> ''ok'' \<or> SystemStatus s' \<noteq> ''ok''")
          case True
          have eq: "waitRunningInstanceLoop p deadline i now
                     = after [?poll] (waitRunningInstanceLoop p deadline i (now + 10))"
            using False Inr Cons True by (simp add: unfold)
          have IH: "Api t (DescribeInstanceStatus ids)
                     \<in> set (events (waitRunningInstanceLoop p deadline i (now + 10)))
                   \<Longrightarrow> Api t (ModifyInstanceAttribute i (SetSourceDestCheck False))
                     \<in> set (events (waitRunningInstanceLoop p deadline i (now + 10)))"
            using "1.IH"(2)[OF w refl g refl Cons True _ "1.prems"(2,3,4)] by blast
          show ?thesis using again[OF eq _ IH] Cons True by auto
        next
          case ok: False
          have ev: "events (waitRunningInstanceLoop p deadline i now)
                  = [?poll, Api (now + 10) (ModifyInstanceAttribute i (SetSourceDestCheck False))]"
            using False Inr Cons ok by (simp add: unfold)
          with "1.prems"(1) have "t = now + 10" by auto
          then show ?thesis by (simp add: ev)
        qed
      qed
    qed
  qed
qed


section \<open>ReplaceInstance: the create branch\<close>

text \<open>A retried call logs the call once per attempt and nothing else.\<close>

lemma addRetry_call_events:
  "\<exists>attempts. events (addRetry errors rate deadline n interval
                         (\<lambda>t. callAwsService call (answer t) t) now)
                = map (\<lambda>u. Api u call) attempts"
proof (induction n arbitrary: interval now)
  case 0
  have "events (addRetry errors rate deadline 0 interval
                  (\<lambda>t. callAwsService call (answer t) t) now) = map (\<lambda>u. Api u call) [now]"
    by simp
  then show ?case by blast
next
  case (Suc n)
  let ?task = "\<lambda>t. callAwsService call (answer t) t"
  have one: "\<exists>attempts. [Api now call] = map (\<lambda>u. Api u call) attempts"
    by (rule exI[of _ "[now]"]) simp
  show ?case
  proof (cases "answer now")
    case (Inr v)
    then have "events (addRetry errors rate deadline (Suc n) interval ?task now) = [Api now call]"
      by (simp add: callAwsService_def)
    then show ?thesis using one by simp
  next
    case (Inl name)
    show ?thesis
    proof (cases "name \<in> set errors \<and> \<not> deadline \<le> now + interval")
      case False
      then have "events (addRetry errors rate deadline (Suc n) interval ?task now) = [Api now call]"
        using Inl by (auto simp: callAwsService_def waitState_def)
      then show ?thesis using one by simp
    next
      case True
      then have eq: "addRetry errors rate deadline (Suc n) interval ?task now
                       = after [Api now call]
                           (addRetry errors rate deadline n (rate * interval) ?task
                              (now + interval))"
        using Inl by (simp add: callAwsService_def waitState_def)
      from Suc.IH[of "rate * interval" "now + interval"] obtain attempts where
        "events (addRetry errors rate deadline n (rate * interval) ?task (now + interval))
           = map (\<lambda>u. Api u call) attempts"
        by blast
      then have "events (addRetry errors rate deadline (Suc n) interval ?task now)
                   = map (\<lambda>u. Api u call) (now # attempts)"
        unfolding eq by simp
      then show ?thesis by blast
    qed
  qed
qed

text \<open>
  The events of one item of the Map \<open>CreateNewInstances\<close>: the invocations of the image
  lookup, then at most the launch, then the events of the status loop of the launched
  instance.
\<close>

lemma createNewInstance_shape:
  "\<exists>invokes tail.
     events (createNewInstance p sg deadline az now)
       = map (\<lambda>u. Api u (LambdaInvoke ''GetLatestNATImage'')) invokes @ tail
     \<and> (tail = []
        \<or> (\<exists>imageId t. tail = [Api t (RunInstances
                                     (runInstanceParameters sg natInstanceTypeName az imageId))])
        \<or> (\<exists>imageId i t. tail = Api t (RunInstances
                                     (runInstanceParameters sg natInstanceTypeName az imageId))
                                  # events (waitRunningInstanceLoop p deadline i t)))"
proof -
  let ?img = "getNatInstancesImageTask p ''GetLatestNATImage'' deadline now"
  obtain invokes where inv: "events ?img
      = map (\<lambda>u. Api u (LambdaInvoke ''GetLatestNATImage'')) invokes"
    unfolding getNatInstancesImageTask_def
    using addRetry_call_events[of lambdaServiceExceptions 2 deadline 6 2
        "LambdaInvoke ''GetLatestNATImage''" "latestImage p ''GetLatestNATImage''" now]
    by blast
  obtain st evs t where img: "?img = Run st evs t" by (cases ?img) simp
  have evs: "evs = map (\<lambda>u. Api u (LambdaInvoke ''GetLatestNATImage'')) invokes"
    using inv img by simp
  show ?thesis
  proof (cases st)
    case (Raise e)
    then have "events (createNewInstance p sg deadline az now)
                 = map (\<lambda>u. Api u (LambdaInvoke ''GetLatestNATImage'')) invokes @ []"
      by (simp add: createNewInstance_def img evs)
    then show ?thesis by blast
  next
    case (Halt c)
    then have "events (createNewInstance p sg deadline az now)
                 = map (\<lambda>u. Api u (LambdaInvoke ''GetLatestNATImage'')) invokes @ []"
      by (simp add: createNewInstance_def img evs)
    then show ?thesis by blast
  next
    case (Next imageId)
    let ?rp = "runInstanceParameters sg natInstanceTypeName az imageId"
    have ev: "events (createNewInstance p sg deadline az now)
                = map (\<lambda>u. Api u (LambdaInvoke ''GetLatestNATImage'')) invokes
                  @ events (next_state (getRunInstanceTask p sg natInstanceTypeName az imageId t)
                              (waitRunningInstanceLoop p deadline))"
      using Next by (simp add: createNewInstance_def img evs)
    show ?thesis
    proof (cases "runInstances p ?rp t")
      case (Inl e)
      then have "events (next_state (getRunInstanceTask p sg natInstanceTypeName az imageId t)
                              (waitRunningInstanceLoop p deadline)) = [Api t (RunInstances ?rp)]"
        by (simp add: getRunInstanceTask_def callAwsService_def Let_def)
      then show ?thesis using ev by blast
    next
      case (Inr insts)
      show ?thesis
      proof (cases insts)
        case Nil
        then have "events (next_state (getRunInstanceTask p sg natInstanceTypeName az imageId t)
                              (waitRunningInstanceLoop p deadline)) = [Api t (RunInstances ?rp)]"
          using Inr by (simp add: getRunInstanceTask_def callAwsService_def Let_def)
        then show ?thesis using ev by blast
      next
        case (Cons inst rest)
        then have "events (next_state (getRunInstanceTask p sg natInstanceTypeName az imageId t)
                              (waitRunningInstanceLoop p deadline))
                     = Api t (RunInstances ?rp)
                       # events (waitRunningInstanceLoop p deadline (InstanceId inst) t)"
          using Inr by (simp add: getRunInstanceTask_def callAwsService_def Let_def)
        then show ?thesis using ev by blast
      qed
    qed
  qed
qed

lemma createNewInstance_launches:
  assumes "latestImage p ''GetLatestNATImage'' now = Inr imageId"
  shows "Api now (RunInstances (runInstanceParameters sg natInstanceTypeName az imageId))
           \<in> set (events (createNewInstance p sg deadline az now))"
proof -
  let ?rp = "runInstanceParameters sg natInstanceTypeName az imageId"
  have img: "getNatInstancesImageTask p ''GetLatestNATImage'' deadline now
               = Run (Next imageId) [Api now (LambdaInvoke ''GetLatestNATImage'')] now"
    using assms by (simp add: getNatInstancesImageTask_def callAwsService_def eval_nat_numeral)
  have "Api now (RunInstances ?rp)
          \<in> set (events (next_state (getRunInstanceTask p sg natInstanceTypeName az imageId now)
                              (waitRunningInstanceLoop p deadline)))"
  proof (cases "runInstances p ?rp now")
    case (Inl e)
    then show ?thesis by (simp add: getRunInstanceTask_def callAwsService_def Let_def)
  next
    case (Inr insts)
    then show ?thesis
      by (cases insts) (simp_all add: getRunInstanceTask_def callAwsService_def Let_def)
  qed
  then show ?thesis by (simp add: createNewInstance_def img)
qed

lemma createNewInstance_launch:
  assumes "Api t (RunInstances rp) \<in> set (events (createNewInstance p sg deadline az now))"
  shows "NetworkInterfaceSubnetId rp = publicSubnetId az \<and> DisableApiTermination rp
       \<and> HttpEndpoint rp = ''disabled''"
proof -
  have loop: "\<And>i u. Api t (RunInstances rp) \<notin> set (events (waitRunningInstanceLoop p deadline i u))"
    using waitRunningInstanceLoop_event_kinds by blast
  obtain invokes tail where ev: "events (createNewInstance p sg deadline az now)
             = map (\<lambda>u. Api u (LambdaInvoke ''GetLatestNATImage'')) invokes @ tail"
    and tail: "tail = []
        \<or> (\<exists>imageId t. tail = [Api t (RunInstances
                                     (runInstanceParameters sg natInstanceTypeName az imageId))])
        \<or> (\<exists>imageId i t. tail = Api t (RunInstances
                                     (runInstanceParameters sg natInstanceTypeName az imageId))
                                  # events (waitRunningInstanceLoop p deadline i t))"
    using createNewInstance_shape[of p sg deadline az now] by blast
  from assms ev have "Api t (RunInstances rp) \<in> set tail" by auto
  with tail loop obtain imageId where "rp = runInstanceParameters sg natInstanceTypeName az imageId"
    by auto
  then show ?thesis by (simp add: runInstanceParameters_def)
qed

lemma createNewInstance_disable_after_ok:
  assumes "events (createNewInstance p sg deadline az now)
             = pre @ Api t (ModifyInstanceAttribute i (SetSourceDestCheck b)) # post"
  shows "b = False
       \<and> (\<exists>s rest. Api t (DescribeInstanceStatus [i]) \<in> set pre
             \<and> describeInstanceStatus p [i] t = Inr (s # rest)
             \<and> InstanceStatus s = ''ok'' \<and> SystemStatus s = ''ok'')"
proof -
  let ?M = "Api t (ModifyInstanceAttribute i (SetSourceDestCheck b))"
  obtain invokes tail where
    ev: "events (createNewInstance p sg deadline az now)
           = map (\<lambda>u. Api u (LambdaInvoke ''GetLatestNATImage'')) invokes @ tail"
    and tail: "tail = []
        \<or> (\<exists>imageId u. tail = [Api u (RunInstances
                                     (runInstanceParameters sg natInstanceTypeName az imageId))])
        \<or> (\<exists>imageId j u. tail = Api u (RunInstances
                                     (runInstanceParameters sg natInstanceTypeName az imageId))
                                  # events (waitRunningInstanceLoop p deadline j u))"
    using createNewInstance_shape[of p sg deadline az now] by blast
  let ?inv = "map (\<lambda>u. Api u (LambdaInvoke ''GetLatestNATImage'')) invokes"
  have notinv: "?M \<notin> set ?inv" by auto
  have "?inv @ tail = pre @ ?M # post" using assms ev by simp
  from prefix_before_event[OF this notinv] obtain us where
    pre: "pre = ?inv @ us" and t: "tail = us @ ?M # post"
    by blast
  from tail show ?thesis
  proof (elim disjE exE)
    assume "tail = []"
    with t show ?thesis by simp
  next
    fix imageId u
    assume "tail = [Api u (RunInstances (runInstanceParameters sg natInstanceTypeName az imageId))]"
    with t show ?thesis by (cases us) simp_all
  next
    fix imageId j u
    let ?R = "Api u (RunInstances (runInstanceParameters sg natInstanceTypeName az imageId))"
    assume "tail = ?R # events (waitRunningInstanceLoop p deadline j u)"
    then have "[?R] @ events (waitRunningInstanceLoop p deadline j u) = us @ ?M # post"
      using t by simp
    moreover have "?M \<notin> set [?R]" by simp
    ultimately obtain vs where us: "us = [?R] @ vs"
      and loop: "events (waitRunningInstanceLoop p deadline j u) = vs @ ?M # post"
      using prefix_before_event[of "[?R]" "events (waitRunningInstanceLoop p deadline j u)"
          us ?M post]
      by blast
    from waitRunningInstanceLoop_disable_after_ok[OF loop]
    have "i = j" "b = False"
      and "\<exists>s rest. Api t (DescribeInstanceStatus [j]) \<in> set vs
             \<and> describeInstanceStatus p [j] t = Inr (s # rest)
             \<and> InstanceStatus s = ''ok'' \<and> SystemStatus s = ''ok''"
      by simp_all
    then show ?thesis using pre us by auto
  qed
qed

lemma createNewInstance_ok_poll_disables:
  assumes "Api t (DescribeInstanceStatus [i])
             \<in> set (events (createNewInstance p sg deadline az now))"
    and "describeInstanceStatus p [i] t = Inr (s # rest)"
    and "InstanceStatus s = ''ok''" and "SystemStatus s = ''ok''"
  shows "Api t (ModifyInstanceAttribute i (SetSourceDestCheck False))
           \<in> set (events (createNewInstance p sg deadline az now))"
proof -
  let ?P = "Api t (DescribeInstanceStatus [i])"
  obtain invokes tail where
    ev: "events (createNewInstance p sg deadline az now)
           = map (\<lambda>u. Api u (LambdaInvoke ''GetLatestNATImage'')) invokes @ tail"
    and tail: "tail = []
        \<or> (\<exists>imageId u. tail = [Api u (RunInstances
                                     (runInstanceParameters sg natInstanceTypeName az imageId))])
        \<or> (\<exists>imageId j u. tail = Api u (RunInstances
                                     (runInstanceParameters sg natInstanceTypeName az imageId))
                                  # events (waitRunningInstanceLoop p deadline j u))"
    using createNewInstance_shape[of p sg deadline az now] by blast
  from assms(1) ev have P: "?P \<in> set tail" by auto
  from tail show ?thesis
  proof (elim disjE exE)
    assume "tail = []"
    with P show ?thesis by simp
  next
    fix imageId u
    assume "tail = [Api u (RunInstances (runInstanceParameters sg natInstanceTypeName az imageId))]"
    with P show ?thesis by simp
  next
    fix imageId j u
    assume t: "tail = Api u (RunInstances (runInstanceParameters sg natInstanceTypeName az imageId))
                      # events (waitRunningInstanceLoop p deadline j u)"
    with P have loop: "?P \<in> set (events (waitRunningInstanceLoop p deadline j u))" by simp
    then have "j = i" using waitRunningInstanceLoop_event_kinds[OF loop] by simp
    from waitRunningInstanceLoop_ok_poll_disables[OF loop assms(2,3,4)]
    show ?thesis using ev t \<open>j = i\<close> by simp
  qed
qed

lemma createNewInstance_event_kinds:
  assumes "e \<in> set (events (createNewInstance p sg deadline az now))"
  shows "(\<exists>t n. e = Api t (LambdaInvoke n)) \<or> (\<exists>t rp. e = Api t (RunInstances rp))
       \<or> (\<exists>t i. e = Api t (DescribeInstanceStatus [i]))
       \<or> (\<exists>t i. e = Api t (ModifyInstanceAttribute i (SetSourceDestCheck False)))"
proof -
  obtain invokes tail where
    ev: "events (createNewInstance p sg deadline az now)
           = map (\<lambda>u. Api u (LambdaInvoke ''GetLatestNATImage'')) invokes @ tail"
    and tail: "tail = []
        \<or> (\<exists>imageId u. tail = [Api u (RunInstances
                                     (runInstanceParameters sg natInstanceTypeName az imageId))])
        \<or> (\<exists>imageId j u. tail = Api u (RunInstances
                                     (runInstanceParameters sg natInstanceTypeName az imageId))
                                  # events (waitRunningInstanceLoop p deadline j u))"
    using createNewInstance_shape[of p sg deadline az now] by blast
  from assms ev have "e \<in> set (map (\<lambda>u. Api u (LambdaInvoke ''GetLatestNATImage'')) invokes)
      \<or> e \<in> set tail"
    by simp
  then show ?thesis
  proof
    assume "e \<in> set (map (\<lambda>u. Api u (LambdaInvoke ''GetLatestNATImage'')) invokes)"
    then show ?thesis by auto
  next
    assume e: "e \<in> set tail"
    from tail show ?thesis
    proof (elim disjE exE)
      assume "tail = []"
      with e show ?thesis by simp
    next
      fix imageId u
      assume "tail = [Api u (RunInstances
                                   (runInstanceParameters sg natInstanceTypeName az imageId))]"
      with e show ?thesis by simp
    next
      fix imageId j u
      assume "tail = Api u (RunInstances
                                   (runInstanceParameters sg natInstanceTypeName az imageId))
                                # events (waitRunningInstanceLoop p deadline j u)"
      with e have "e = Api u (RunInstances
                                   (runInstanceParameters sg natInstanceTypeName az imageId))
                 \<or> e \<in> set (events (waitRunningInstanceLoop p deadline j u))"
        by simp
      then show ?thesis
        using waitRunningInstanceLoop_event_kinds[of e p deadline j u] by blast
    qed
  qed
qed

text \<open>
  An event of a Map lies inside the events of one item; the events of the Map before it
  end with those earlier events of the item that lie before the cut.
\<close>

lemma concat_map_split:
  "concat (map g rs) = pre @ e # post
     \<Longrightarrow> \<exists>r\<in>set rs. \<exists>pre1 a b. pre = pre1 @ a \<and> g r = a @ e # b"
proof (induction rs arbitrary: pre)
  case Nil
  then show ?case by simp
next
  case (Cons r rs)
  then have eq: "g r @ concat (map g rs) = pre @ e # post" by simp
  show ?case
  proof (cases "length pre < length (g r)")
    case True
    have "take (length pre) (g r) = pre"
      using eq True by (metis append_eq_append_conv_if less_imp_le_nat)
    moreover from eq True have "g r ! length pre = e"
      by (metis nth_append nth_append_length)
    ultimately have "g r = pre @ e # drop (Suc (length pre)) (g r)"
      using True by (metis id_take_nth_drop)
    then have "pre = [] @ pre \<and> g r = pre @ e # drop (Suc (length pre)) (g r)"
      by simp
    then show ?thesis by (metis list.set_intros(1))
  next
    case False
    then have "length (g r) \<le> length pre" by simp
    then obtain us where pre: "pre = g r @ us" and rs: "concat (map g rs) = us @ e # post"
      using eq by (metis append_eq_append_conv_if append_eq_conv_conj)
    from Cons.IH[OF rs] obtain y pre1 a b where
      y: "y \<in> set rs" and us: "us = pre1 @ a" and gy: "g y = a @ e # b"
      by blast
    have "pre = (g r @ pre1) @ a" using pre us by simp
    with y gy show ?thesis by (metis list.set_intros(2))
  qed
qed

lemma filter_split:
  "filter P ys = a @ e # b \<Longrightarrow> \<exists>us vs. ys = us @ e # vs \<and> a = filter P us \<and> P e"
proof (induction ys arbitrary: a)
  case Nil
  then show ?case by simp
next
  case (Cons y ys)
  show ?case
  proof (cases "P y")
    case False
    then have "filter P ys = a @ e # b" using Cons.prems by simp
    from Cons.IH[OF this] obtain us vs where "ys = us @ e # vs" "a = filter P us" "P e"
      by blast
    then have "y # ys = (y # us) @ e # vs \<and> a = filter P (y # us) \<and> P e"
      using False by simp
    then show ?thesis by blast
  next
    case True
    then have eq: "y # filter P ys = a @ e # b" using Cons.prems by simp
    show ?thesis
    proof (cases a)
      case Nil
      then have "y # ys = [] @ e # ys \<and> a = filter P [] \<and> P e"
        using eq True by simp
      then show ?thesis by blast
    next
      case (Cons a0 a')
      then have "filter P ys = a' @ e # b" and a0: "a0 = y" using eq by simp_all
      from Cons.IH[OF this(1)] obtain us vs where "ys = us @ e # vs" "a' = filter P us" "P e"
        by blast
      then have "y # ys = (y # us) @ e # vs \<and> a = filter P (y # us) \<and> P e"
        using True Cons a0 by simp
      then show ?thesis by blast
    qed
  qed
qed

lemma mapItems_events_split:
  assumes "events (mapItems pol m f now inflight xs) = pre @ e # post"
  shows "\<exists>x\<in>set xs. \<exists>t keep pre1 front rear.
           pre = pre1 @ filter keep front \<and> events (f x t) = front @ e # rear
           \<and> (\<forall>a b. at a = at b \<longrightarrow> keep a = keep b) \<and> keep e"
proof -
  let ?rs = "startItems m f now inflight None xs"
  obtain keep where
    ev: "events (joinItems pol now ?rs) = concat (map (\<lambda>r. filter keep (events r)) ?rs)"
    and same: "\<forall>a b. at a = at b \<longrightarrow> keep a = keep b"
    using joinItems_events[of pol now ?rs] by blast
  have "concat (map (\<lambda>r. filter keep (events r)) ?rs) = pre @ e # post"
    using assms ev by (simp add: mapItems_def)
  from concat_map_split[OF this] obtain r pre1 a b where r: "r \<in> set ?rs"
    and pre: "pre = pre1 @ a" and fr: "filter keep (events r) = a @ e # b"
    by blast
  from filter_split[OF fr] obtain front rear where
    "events r = front @ e # rear" "a = filter keep front" "keep e"
    by blast
  moreover from startItems_origin[OF r] obtain x t where "x \<in> set xs" "r = f x t" by blast
  ultimately show ?thesis using pre same by blast
qed

lemma createNewInstancesBranch_events:
  "events (createNewInstancesBranch pol azs sg p deadline now)
     = events (mapItems pol 6 (createNewInstance p sg deadline) now [] azs)"
  by (simp add: createNewInstancesBranch_def GetSubnets_def mapState_def)

lemma createNewInstancesBranch_event_kinds:
  assumes "e \<in> set (events (createNewInstancesBranch pol azs sg p deadline now))"
  shows "(\<exists>t n. e = Api t (LambdaInvoke n)) \<or> (\<exists>t rp. e = Api t (RunInstances rp))
       \<or> (\<exists>t i. e = Api t (DescribeInstanceStatus [i]))
       \<or> (\<exists>t i. e = Api t (ModifyInstanceAttribute i (SetSourceDestCheck False)))"
proof -
  from assms have "e \<in> set (events (mapItems pol 6 (createNewInstance p sg deadline) now [] azs))"
    by (simp only: createNewInstancesBranch_events)
  from mapItems_events_from_items[OF this] obtain az t where
    "e \<in> set (events (createNewInstance p sg deadline az t))" by blast
  then show ?thesis by (rule createNewInstance_event_kinds)
qed

text \<open>
  Claim C5. In the create branch of ReplaceInstance: every \<open>runInstances\<close> call of the item
  for a zone names that zone's public subnet, sets \<open>DisableApiTermination\<close> (termination
  protection on) and sets the metadata endpoint to \<open>disabled\<close>, and so does every launch of
  the branch for some configured zone; every call that disables the source/destination
  check of an instance comes, in the branch's events, after a poll of that instance on
  which the provider reported both the instance status and the system status \<open>ok\<close>; a
  poll that returns no status, made before the deadline, leads back to the 10 second
  wait and the next poll instead of failing; every poll of the branch on which both
  checks are \<open>ok\<close> is followed by the call that disables the source/destination check of
  the polled instance; and the item for a zone does launch an instance with these
  parameters once the image lookup has answered.
\<close>

theorem create_branch_launch_and_readiness:
  "(\<forall>t rp. Api t (RunInstances rp) \<in> set (events (createNewInstance p sg deadline az now))
       \<longrightarrow> NetworkInterfaceSubnetId rp = publicSubnetId az \<and> DisableApiTermination rp
           \<and> HttpEndpoint rp = ''disabled'')
   \<and> (\<forall>t rp. Api t (RunInstances rp)
                \<in> set (events (createNewInstancesBranch pol azConfigurations sg p deadline now))
       \<longrightarrow> (\<exists>zone\<in>set azConfigurations. NetworkInterfaceSubnetId rp = publicSubnetId zone)
           \<and> DisableApiTermination rp \<and> HttpEndpoint rp = ''disabled'')
   \<and> (\<forall>pre t i b post.
         events (createNewInstancesBranch pol azConfigurations sg p deadline now)
           = pre @ Api t (ModifyInstanceAttribute i (SetSourceDestCheck b)) # post
       \<longrightarrow> b = False
           \<and> (\<exists>t' s rest. Api t' (DescribeInstanceStatus [i]) \<in> set pre
                 \<and> describeInstanceStatus p [i] t' = Inr (s # rest)
                 \<and> InstanceStatus s = ''ok'' \<and> SystemStatus s = ''ok''))
   \<and> (now + 10 < deadline \<and> describeInstanceStatus p [instanceId] (now + 10) = Inr []
       \<longrightarrow> waitRunningInstanceLoop p deadline instanceId now
           = after [Api (now + 10) (DescribeInstanceStatus [instanceId])]
               (waitRunningInstanceLoop p deadline instanceId (now + 10)))
   \<and> (\<forall>t i s rest.
         Api t (DescribeInstanceStatus [i])
           \<in> set (events (createNewInstancesBranch pol azConfigurations sg p deadline now))
         \<and> describeInstanceStatus p [i] t = Inr (s # rest)
         \<and> InstanceStatus s = ''ok'' \<and> SystemStatus s = ''ok''
       \<longrightarrow> Api t (ModifyInstanceAttribute i (SetSourceDestCheck False))
             \<in> set (events (createNewInstancesBranch pol azConfigurations sg p deadline now)))
   \<and> (latestImage p ''GetLatestNATImage'' now = Inr imageId
       \<longrightarrow> Api now (RunInstances (runInstanceParameters sg natInstanceTypeName az imageId))
             \<in> set (events (createNewInstance p sg deadline az now)))"
proof (intro conjI allI impI)
  fix t rp
  assume "Api t (RunInstances rp) \<in> set (events (createNewInstance p sg deadline az now))"
  from createNewInstance_launch[OF this]
  show "NetworkInterfaceSubnetId rp = publicSubnetId az" "DisableApiTermination rp"
    "HttpEndpoint rp = ''disabled''"
    by simp_all
next
  fix t rp
  assume "Api t (RunInstances rp)
            \<in> set (events (createNewInstancesBranch pol azConfigurations sg p deadline now))"
  then have "Api t (RunInstances rp)
               \<in> set (events (mapItems pol 6 (createNewInstance p sg deadline) now []
                                azConfigurations))"
    by (simp only: createNewInstancesBranch_events)
  from mapItems_events_from_items[OF this]
  obtain zone t0 where zone: "zone \<in> set azConfigurations"
    and item: "Api t (RunInstances rp) \<in> set (events (createNewInstance p sg deadline zone t0))"
    by blast
  from createNewInstance_launch[OF item]
  have l: "NetworkInterfaceSubnetId rp = publicSubnetId zone" "DisableApiTermination rp"
    "HttpEndpoint rp = ''disabled''"
    by simp_all
  show "\<exists>zone\<in>set azConfigurations. NetworkInterfaceSubnetId rp = publicSubnetId zone"
    using zone l(1) by blast
  show "DisableApiTermination rp" by (rule l(2))
  show "HttpEndpoint rp = ''disabled''" by (rule l(3))
next
  fix pre t i b post
  assume "events (createNewInstancesBranch pol azConfigurations sg p deadline now)
            = pre @ Api t (ModifyInstanceAttribute i (SetSourceDestCheck b)) # post"
  then have "events (mapItems pol 6 (createNewInstance p sg deadline) now [] azConfigurations)
            = pre @ Api t (ModifyInstanceAttribute i (SetSourceDestCheck b)) # post"
    by (simp only: createNewInstancesBranch_events)
  from mapItems_events_split[OF this]
  obtain zone t0 keep pre1 front rear where pre: "pre = pre1 @ filter keep front"
    and item: "events (createNewInstance p sg deadline zone t0)
                 = front @ Api t (ModifyInstanceAttribute i (SetSourceDestCheck b)) # rear"
    and same: "\<forall>a b. at a = at b \<longrightarrow> keep a = keep b"
    and kept: "keep (Api t (ModifyInstanceAttribute i (SetSourceDestCheck b)))"
    by blast
  from createNewInstance_disable_after_ok[OF item]
  obtain s rest where d: "b = False" "Api t (DescribeInstanceStatus [i]) \<in> set front"
    "describeInstanceStatus p [i] t = Inr (s # rest)"
    "InstanceStatus s = ''ok''" "SystemStatus s = ''ok''"
    by blast
  show "b = False" by (rule d(1))
  have "keep (Api t (DescribeInstanceStatus [i]))"
    using same kept
    by (metis at.simps(1))
  then have "Api t (DescribeInstanceStatus [i]) \<in> set pre" using d(2) pre by simp
  then show "\<exists>t' s rest. Api t' (DescribeInstanceStatus [i]) \<in> set pre
        \<and> describeInstanceStatus p [i] t' = Inr (s # rest)
        \<and> InstanceStatus s = ''ok'' \<and> SystemStatus s = ''ok''"
    using d(3,4,5) by blast
next
  assume "now + 10 < deadline \<and> describeInstanceStatus p [instanceId] (now + 10) = Inr []"
  then show "waitRunningInstanceLoop p deadline instanceId now
           = after [Api (now + 10) (DescribeInstanceStatus [instanceId])]
               (waitRunningInstanceLoop p deadline instanceId (now + 10))"
    by (simp add: waitRunningInstanceLoop_unfold[of p deadline instanceId now])
next
  fix t i s rest
  let ?branch = "createNewInstancesBranch pol azConfigurations sg p deadline now"
  assume h: "Api t (DescribeInstanceStatus [i]) \<in> set (events ?branch)
         \<and> describeInstanceStatus p [i] t = Inr (s # rest)
         \<and> InstanceStatus s = ''ok'' \<and> SystemStatus s = ''ok''"
  then have "Api t (DescribeInstanceStatus [i])
               \<in> set (events (mapItems pol 6 (createNewInstance p sg deadline) now []
                                azConfigurations))"
    by (simp only: createNewInstancesBranch_events)
  from mapItems_same_instant[OF this]
  obtain zone t0 where
    item: "Api t (DescribeInstanceStatus [i])
             \<in> set (events (createNewInstance p sg deadline zone t0))"
    and same: "\<forall>e'\<in>set (events (createNewInstance p sg deadline zone t0)).
                 at e' = at (Api t (DescribeInstanceStatus [i]))
                 \<longrightarrow> e' \<in> set (events (mapItems pol 6 (createNewInstance p sg deadline) now []
                                azConfigurations))"
    by blast
  from h have ok: "describeInstanceStatus p [i] t = Inr (s # rest)"
    "InstanceStatus s = ''ok''" "SystemStatus s = ''ok''"
    by simp_all
  from createNewInstance_ok_poll_disables[OF item ok]
  have "Api t (ModifyInstanceAttribute i (SetSourceDestCheck False))
          \<in> set (events (createNewInstance p sg deadline zone t0))" .
  with same have "Api t (ModifyInstanceAttribute i (SetSourceDestCheck False))
          \<in> set (events (mapItems pol 6 (createNewInstance p sg deadline) now []
                                azConfigurations))"
    by auto
  then show "Api t (ModifyInstanceAttribute i (SetSourceDestCheck False)) \<in> set (events ?branch)"
    by (simp only: createNewInstancesBranch_events)
next
  assume "latestImage p ''GetLatestNATImage'' now = Inr imageId"
  then show "Api now (RunInstances (runInstanceParameters sg natInstanceTypeName az imageId))
               \<in> set (events (createNewInstance p sg deadline az now))"
    by (rule createNewInstance_launches)
qed

theorem create_branch_launch_and_readiness_witness:
  "NetworkInterfaceSubnetId (runInstanceParameters ''sg-nat'' natInstanceTypeName
      (exampleZone ''a'') ''ami-latest'') = publicSubnetId (exampleZone ''a'')
   \<and> (\<exists>zone\<in>set exampleZones.
         NetworkInterfaceSubnetId (runInstanceParameters ''sg-nat'' natInstanceTypeName
            (exampleZone ''a'') ''ami-latest'') = publicSubnetId zone)
   \<and> (\<exists>t' s rest.
         Api t' (DescribeInstanceStatus [''i-new-in-subnet-public-a''])
           \<in> set (take 5 (events (createNewInstancesBranch FailFast exampleZones ''sg-nat''
                                     healthyProvider 300 0)))
         \<and> describeInstanceStatus healthyProvider [''i-new-in-subnet-public-a''] t'
             = Inr (s # rest)
         \<and> InstanceStatus s = ''ok'' \<and> SystemStatus s = ''ok'')
   \<and> waitRunningInstanceLoop healthyProvider 300 ''i-new-in-subnet-public-a'' 0
       = after [Api 10 (DescribeInstanceStatus [''i-new-in-subnet-public-a''])]
           (waitRunningInstanceLoop healthyProvider 300 ''i-new-in-subnet-public-a'' 10)
   \<and> Api 30 (ModifyInstanceAttribute ''i-new-in-subnet-public-c'' (SetSourceDestCheck False))
       \<in> set (events (createNewInstancesBranch FailFast exampleZones ''sg-nat''
                         healthyProvider 300 0))"
proof -
  let ?rp = "runInstanceParameters ''sg-nat'' natInstanceTypeName (exampleZone ''a'') ''ami-latest''"
  let ?branch = "createNewInstancesBranch FailFast exampleZones ''sg-nat'' healthyProvider 300 0"
  note main = create_branch_launch_and_readiness[where p = healthyProvider and sg = "''sg-nat''"
      and deadline = 300 and now = 0 and az = "exampleZone ''a''" and pol = FailFast
      and azConfigurations = exampleZones and instanceId = "''i-new-in-subnet-public-a''"
      and imageId = "''ami-latest''"]
  have image: "latestImage healthyProvider ''GetLatestNATImage'' 0 = Inr ''ami-latest''"
    by (simp add: healthyProvider_def)
  have item: "Api 0 (RunInstances ?rp)
                \<in> set (events (createNewInstance healthyProvider ''sg-nat'' 300
                                  (exampleZone ''a'') 0))"
    using main image by blast
  have branch: "Api 0 (RunInstances ?rp) \<in> set (events ?branch)"
    by code_simp
  have split: "events ?branch
      = take 5 (events ?branch)
        @ Api 30 (ModifyInstanceAttribute ''i-new-in-subnet-public-a'' (SetSourceDestCheck False))
        # drop 6 (events ?branch)"
    by code_simp
  have poll: "(0::nat) + 10 < 300
      \<and> describeInstanceStatus healthyProvider [''i-new-in-subnet-public-a''] (0 + 10) = Inr []"
    by (simp add: healthyProvider_def)
  have seen: "Api 30 (DescribeInstanceStatus [''i-new-in-subnet-public-c'']) \<in> set (events ?branch)"
    by code_simp
  have ok: "describeInstanceStatus healthyProvider [''i-new-in-subnet-public-c''] 30
              = Inr (\<lparr>InstanceStatus = ''ok'', SystemStatus = ''ok''\<rparr> # [])"
    by (simp add: healthyProvider_def)
  have "NetworkInterfaceSubnetId ?rp = publicSubnetId (exampleZone ''a'')"
    using main item by blast
  moreover have "\<exists>zone\<in>set exampleZones. NetworkInterfaceSubnetId ?rp = publicSubnetId zone"
    using main branch by blast
  moreover have "\<exists>t' s rest.
         Api t' (DescribeInstanceStatus [''i-new-in-subnet-public-a''])
           \<in> set (take 5 (events ?branch))
         \<and> describeInstanceStatus healthyProvider [''i-new-in-subnet-public-a''] t'
             = Inr (s # rest)
         \<and> InstanceStatus s = ''ok'' \<and> SystemStatus s = ''ok''"
    using main split by blast
  moreover have "waitRunningInstanceLoop healthyProvider 300 ''i-new-in-subnet-public-a'' 0
       = after [Api 10 (DescribeInstanceStatus [''i-new-in-subnet-public-a''])]
           (waitRunningInstanceLoop healthyProvider 300 ''i-new-in-subnet-public-a'' 10)"
    using main poll by simp
  moreover have "Api 30 (ModifyInstanceAttribute ''i-new-in-subnet-public-c''
                           (SetSourceDestCheck False)) \<in> set (events ?branch)"
  proof -
    have "Api 30 (DescribeInstanceStatus [''i-new-in-subnet-public-c'']) \<in> set (events ?branch)
         \<and> describeInstanceStatus healthyProvider [''i-new-in-subnet-public-c''] 30
             = Inr (\<lparr>InstanceStatus = ''ok'', SystemStatus = ''ok''\<rparr> # [])
         \<and> InstanceStatus \<lparr>InstanceStatus = ''ok'', SystemStatus = ''ok''\<rparr> = ''ok''
         \<and> SystemStatus \<lparr>InstanceStatus = ''ok'', SystemStatus = ''ok''\<rparr> = ''ok''"
      using seen ok by simp
    with main show ?thesis by blast
  qed
  ultimately show ?thesis by blast
qed

text \<open>
  The items of the Map run side by side: when the instance launched in zone \<open>a\<close> never
  reports a status, the branch ends with the timeout of the execution, and the instances
  of the zones listed after it have been launched and made ready all the same.
\<close>

lemma create_branch_beside_stuck_item:
  "status (createNewInstancesBranch FailFast exampleZones ''sg-nat'' stuckInstanceProvider 300 0)
     = Halt Timeout
   \<and> Api 0 (RunInstances (runInstanceParameters ''sg-nat'' natInstanceTypeName
               (exampleZone ''c'') ''ami-latest''))
       \<in> set (events (createNewInstancesBranch FailFast exampleZones ''sg-nat''
                         stuckInstanceProvider 300 0))
   \<and> Api 30 (ModifyInstanceAttribute ''i-new-in-subnet-public-c'' (SetSourceDestCheck False))
       \<in> set (events (createNewInstancesBranch FailFast exampleZones ''sg-nat''
                         stuckInstanceProvider 300 0))"
  by code_simp

section \<open>ReplaceInstance: the Parallel state\<close>

text \<open>A Parallel state of two branches whose first branch ends at once without a call.\<close>

lemma parallelState_after_noop:
  assumes "b1 now = Run (Next y) [] now"
  shows "status (parallelState pol [b1, b2] now)
           = (case status (b2 now) of Next y2 \<Rightarrow> Next [y, y2] | Raise e \<Rightarrow> Raise e
              | Halt c \<Rightarrow> Halt c)"
    and "set (events (parallelState pol [b1, b2] now)) \<subseteq> set (events (b2 now))"
proof -
  obtain st evs t where b2: "b2 now = Run st evs t" by (cases "b2 now") simp
  have rs: "startItems 0 (\<lambda>branch t. branch t) now [] None [b1, b2]
              = [Run (Next y) [] now, Run st evs t]"
    using startItems_within_bound[of 0 "[]" "[b1, b2]" "\<lambda>branch t. branch t" now None]
    by (simp add: assms b2)
  show "status (parallelState pol [b1, b2] now)
           = (case status (b2 now) of Next y2 \<Rightarrow> Next [y, y2] | Raise e \<Rightarrow> Raise e
              | Halt c \<Rightarrow> Halt c)"
    unfolding parallelState_def mapItems_def rs b2
    by (cases st; cases pol) (simp_all add: joinItems_def)
  show "set (events (parallelState pol [b1, b2] now)) \<subseteq> set (events (b2 now))"
    unfolding parallelState_def mapItems_def rs b2
    by (cases st; cases pol) (auto simp: joinItems_def)
qed

text \<open>A ReplaceInstance execution that passed the guard, Failover and the listing.\<close>

lemma replace_passed:
  fixes pol azs sg p t0 rs
  defines "ex \<equiv> createReplaceInstanceStateMachine pol azs sg p t0"
    and "fo \<equiv> createFailoverStateMachine pol azs p t0"
    and "par \<equiv> parallelState pol
                   [terminateOldInstancesBranch pol p rs,
                    createNewInstancesBranch pol azs sg p (t0 + 300)] t0"
  assumes "listExecutions p \<lparr>StateMachineArn = replaceInstanceStateMachineArn,
                              StatusFilter = ''RUNNING''\<rparr> t0 = Inr es"
    and "\<not> 1 < length es"
    and "outcome fo = Succeeded"
    and "describeInstances p natInstancesFilters t0 = Inr rs"
  shows "trace ex = Api t0 (ListExecutions \<lparr>StateMachineArn = replaceInstanceStateMachineArn,
                                            StatusFilter = ''RUNNING''\<rparr>)
                    # ExecutionStarted t0 ''NATInstanceFailover'' # trace fo
                    @ ExecutionEnded t0 ''NATInstanceFailover'' Succeeded
                    # Api t0 (DescribeInstances natInstancesFilters) # events par"
    and "outcome ex = (case status par of Next ys \<Rightarrow> Succeeded
                       | Raise e \<Rightarrow> if statesALL e then Failed (FailState ''ReplaceInstance'')
                                    else Failed (Uncaught e)
                       | Halt c \<Rightarrow> Failed c)"
  using assms(4-7) unfolding ex_def createReplaceInstanceStateMachine_def fo_def par_def
  by (simp_all add: getStateMachineRunning_def callAwsService_def
          createStateMachineFailState_def Let_def trigger_failover getNatInstancesTask_def
          runStateMachine_sel addCatch_sel split: status.splits)


text \<open>
  Claim C10. When the listing returns no reservation, the terminate branch takes the
  default of the Choice \<open>AnyInstance?\<close>, the Pass state \<open>NoOp\<close>: it ends normally without
  any call. The execution issues no call that switches termination protection off and no
  terminate call, and it succeeds whenever the guard passes, Failover succeeds and the
  create branch ends normally.
\<close>

theorem replacement_without_running_instances:
  fixes pol azConfigurations sg p t0
  defines "ex \<equiv> createReplaceInstanceStateMachine pol azConfigurations sg p t0"
  assumes listing: "describeInstances p natInstancesFilters t0 = Inr []"
  shows "terminateOldInstancesBranch pol p [] t0 = Run (Next ()) [] t0
       \<and> (\<forall>t i b. Api t (ModifyInstanceAttribute i (SetDisableApiTermination b)) \<notin> set (trace ex))
       \<and> (\<forall>t ids. Api t (TerminateInstances ids) \<notin> set (trace ex))
       \<and> ((\<exists>es. listExecutions p \<lparr>StateMachineArn = replaceInstanceStateMachineArn,
                                    StatusFilter = ''RUNNING''\<rparr> t0 = Inr es \<and> length es \<le> 1)
            \<and> outcome (createFailoverStateMachine pol azConfigurations p t0) = Succeeded
            \<and> status (createNewInstancesBranch pol azConfigurations sg p (t0 + 300) t0) = Next ()
          \<longrightarrow> outcome ex = Succeeded)"
proof -
  define fo where "fo = createFailoverStateMachine pol azConfigurations p t0"
  define L where "L = Api t0 (ListExecutions \<lparr>StateMachineArn = replaceInstanceStateMachineArn,
                                        StatusFilter = ''RUNNING''\<rparr>)"
  let ?terminate = "terminateOldInstancesBranch pol p []"
  let ?create = "createNewInstancesBranch pol azConfigurations sg p (t0 + 300)"
  let ?par = "parallelState pol [?terminate, ?create] t0"
  have noop: "?terminate t0 = Run (Next ()) [] t0"
    by (simp add: terminateOldInstancesBranch_def noOpState_def)
  have par: "set (events ?par) \<subseteq> set (events (?create t0))"
    and parst: "status ?par = (case status (?create t0) of Next y2 \<Rightarrow> Next [(), y2]
                                | Raise e \<Rightarrow> Raise e | Halt c \<Rightarrow> Halt c)"
    using parallelState_after_noop[of ?terminate t0 "()" pol ?create] noop by simp_all
  have routes: "\<And>e. e \<in> set (trace fo) \<Longrightarrow> \<exists>t rp. e = Api t (ReplaceRoute rp)"
    unfolding fo_def by (rule failover_trace_routes)
  have kinds: "\<And>e. e \<in> set (events ?par) \<Longrightarrow>
       (\<exists>t n. e = Api t (LambdaInvoke n)) \<or> (\<exists>t rp. e = Api t (RunInstances rp))
       \<or> (\<exists>t i. e = Api t (DescribeInstanceStatus [i]))
       \<or> (\<exists>t i. e = Api t (ModifyInstanceAttribute i (SetSourceDestCheck False)))"
    using par createNewInstancesBranch_event_kinds by blast
  have none: "\<forall>e\<in>set (trace ex).
      (\<forall>t i b. e \<noteq> Api t (ModifyInstanceAttribute i (SetDisableApiTermination b)))
      \<and> (\<forall>t ids. e \<noteq> Api t (TerminateInstances ids))"
  proof -
    consider
      (guard) "trace ex = [L]"
    | (failed) "trace ex = L # ExecutionStarted t0 ''NATInstanceFailover'' # trace fo
                          @ [ExecutionEnded t0 ''NATInstanceFailover'' (outcome fo)]"
    | (passed) es where "outcome fo = Succeeded"
        "listExecutions p \<lparr>StateMachineArn = replaceInstanceStateMachineArn,
                            StatusFilter = ''RUNNING''\<rparr> t0 = Inr es" "\<not> 1 < length es"
      using replace_shape[of pol azConfigurations sg p t0]
      unfolding ex_def fo_def L_def by blast
    then show ?thesis
    proof cases
      case guard
      then show ?thesis by (simp add: L_def)
    next
      case failed
      then show ?thesis using routes by (auto simp: L_def)
    next
      case passed
      from replace_passed(1)[OF passed(2,3) passed(1)[unfolded fo_def] listing, of sg]
      have tr: "trace ex = L # ExecutionStarted t0 ''NATInstanceFailover'' # trace fo
                    @ ExecutionEnded t0 ''NATInstanceFailover'' Succeeded
                    # Api t0 (DescribeInstances natInstancesFilters) # events ?par"
        unfolding ex_def fo_def L_def by simp
      show ?thesis
      proof
        fix e
        assume "e \<in> set (trace ex)"
        then have "e = L \<or> e = ExecutionStarted t0 ''NATInstanceFailover'' \<or> e \<in> set (trace fo)
            \<or> e = ExecutionEnded t0 ''NATInstanceFailover'' Succeeded
            \<or> e = Api t0 (DescribeInstances natInstancesFilters) \<or> e \<in> set (events ?par)"
          unfolding tr by auto
        then show "(\<forall>t i b. e \<noteq> Api t (ModifyInstanceAttribute i (SetDisableApiTermination b)))
                 \<and> (\<forall>t ids. e \<noteq> Api t (TerminateInstances ids))"
          using routes[of e] kinds[of e] by (auto simp: L_def)
      qed
    qed
  qed
  have succ: "outcome ex = Succeeded"
    if "listExecutions p \<lparr>StateMachineArn = replaceInstanceStateMachineArn,
                            StatusFilter = ''RUNNING''\<rparr> t0 = Inr es" "length es \<le> 1"
       "outcome (createFailoverStateMachine pol azConfigurations p t0) = Succeeded"
       "status (?create t0) = Next ()" for es
  proof -
    have "\<not> 1 < length es" using that(2) by simp
    from replace_passed(2)[OF that(1) this that(3) listing, of sg]
    show ?thesis unfolding ex_def by (simp add: parst that(4))
  qed
  show ?thesis
    using noop none succ by blast
qed

theorem replacement_without_running_instances_witness:
  "outcome (createReplaceInstanceStateMachine FailFast exampleZones ''sg-nat''
      (healthyProvider\<lparr>describeInstances := \<lambda>filters t. Inr []\<rparr>) 0) = Succeeded
   \<and> (\<forall>t ids. Api t (TerminateInstances ids)
         \<notin> set (trace (createReplaceInstanceStateMachine FailFast exampleZones ''sg-nat''
                         (healthyProvider\<lparr>describeInstances := \<lambda>filters t. Inr []\<rparr>) 0)))"
proof -
  let ?p = "healthyProvider\<lparr>describeInstances := \<lambda>filters t. Inr []\<rparr>"
  have listing: "describeInstances ?p natInstancesFilters 0 = Inr []"
    by simp
  have guard: "\<exists>es. listExecutions ?p \<lparr>StateMachineArn = replaceInstanceStateMachineArn,
                                    StatusFilter = ''RUNNING''\<rparr> 0 = Inr es \<and> length es \<le> 1"
    by (simp add: healthyProvider_def)
  have fo: "outcome (createFailoverStateMachine FailFast exampleZones ?p 0) = Succeeded"
    by code_simp
  have create: "status (createNewInstancesBranch FailFast exampleZones ''sg-nat'' ?p (0 + 300) 0)
                  = Next ()"
    by code_simp
  from replacement_without_running_instances[OF listing, of FailFast exampleZones "''sg-nat''"]
    guard fo create
  show ?thesis by blast
qed

section \<open>Fallback\<close>

text \<open>What one item of the Map \<open>Instances\<close> does.\<close>

lemma replaceInstanceRoute_unfold:
  "replaceInstanceRoute azs p r now =
     (case Instances r of
        [] \<Rightarrow> Run (Raise (PathNotFound ''$.Instances[0].InstanceId'')) [] now
      | i # others \<Rightarrow>
          (case filter (\<lambda>az. publicSubnetId az = SubnetId i) azs of
             [] \<Rightarrow> Run (Raise (PathNotFound ''$.RouteTable[0].privateRouteTableId'')) [] now
           | az # rest \<Rightarrow>
               callAwsService
                 (ReplaceRoute \<lparr>DestinationCidrBlock = ''0.0.0.0/0'', RouteNatGatewayId = None,
                                RouteInstanceId = Some (InstanceId i),
                                RouteTableId = privateRouteTableId az\<rparr>)
                 (replaceRoute p \<lparr>DestinationCidrBlock = ''0.0.0.0/0'', RouteNatGatewayId = None,
                                  RouteInstanceId = Some (InstanceId i),
                                  RouteTableId = privateRouteTableId az\<rparr> now)
                 now))"
proof (cases "Instances r")
  case Nil
  then show ?thesis
    by (simp add: replaceInstanceRoute_def RawAZConfigurations_def)
next
  case (Cons i others)
  then show ?thesis
    by (cases "filter (\<lambda>az. publicSubnetId az = SubnetId i) azs")
       (simp_all add: replaceInstanceRoute_def RawAZConfigurations_def GetDesiredRouteTableId_def
          getReplaceRouteWithNatInstanceTask_def callAwsService_def Let_def)
qed

lemma replaceInstanceRoute_instant:
  "clock (replaceInstanceRoute azs p r t) = t"
  "status (replaceInstanceRoute azs p r t) \<noteq> Halt c"
  unfolding replaceInstanceRoute_unfold
  by (simp_all split: list.splits sum.splits)

text \<open>
  When the reservation lists an instance and the route replacement succeeds, the only
  way for an item to fail is the reference into the empty \<open>RouteTable\<close>.
\<close>

lemma replaceInstanceRoute_failure:
  assumes "Instances r \<noteq> []" and "\<forall>rp. replaceRoute p rp t = Inr ()"
    and "status (replaceInstanceRoute azs p r t) = failWith y"
  shows "y = Raised (PathNotFound ''$.RouteTable[0].privateRouteTableId'')"
proof -
  obtain i others where i: "Instances r = i # others"
    using assms(1) by (cases "Instances r") simp_all
  show ?thesis
  proof (cases "filter (\<lambda>az. publicSubnetId az = SubnetId i) azs")
    case Nil
    then show ?thesis using assms(3) i
      by (cases y) (simp_all add: replaceInstanceRoute_unfold)
  next
    case (Cons az rest)
    then show ?thesis using assms(2,3) i
      by (cases y) (simp_all add: replaceInstanceRoute_unfold)
  qed
qed

lemma fallback_sel:
  assumes "describeInstances p natInstancesFilters t0 = Inr rs"
  shows "trace (createFallbackStateMachine pol azs p t0)
           = Api t0 (DescribeInstances natInstancesFilters)
             # events (mapItems pol 6 (replaceInstanceRoute azs p) t0 [] rs)"
    and "outcome (createFallbackStateMachine pol azs p t0)
           = (case status (mapItems pol 6 (replaceInstanceRoute azs p) t0 [] rs) of
                Next ys \<Rightarrow> Succeeded
              | Raise e \<Rightarrow> if statesALL e then Failed (FailState ''Fallback'')
                           else Failed (Uncaught e)
              | Halt c \<Rightarrow> Failed c)"
  using assms
  by (simp_all add: createFallbackStateMachine_def getNatInstancesTask_def callAwsService_def
      mapState_def runStateMachine_sel addCatch_sel split: status.splits)


text \<open>
  Claim C9, as amended. If the listing holds a reservation whose first instance runs in a
  subnet that is the public subnet of no configured zone, then for that instance the
  filter of the Pass state \<open>GetDesiredRouteTableId\<close> yields an empty \<open>RouteTable\<close>, the
  item raises at the path \<open>$.RouteTable[0].privateRouteTableId\<close> without issuing a call,
  and the execution does not succeed: the instance is not skipped. The Map's catch does
  not receive this error: when every reservation lists an instance and no route
  replacement fails, the execution fails with the path error itself as its cause.
\<close>

theorem fallback_unmatched_instance_fails:
  assumes listing: "describeInstances p natInstancesFilters t0 = Inr reservations"
    and r: "r \<in> set reservations"
    and i: "Instances r = i # others"
    and unmatched: "\<forall>az\<in>set azConfigurations. publicSubnetId az \<noteq> SubnetId i"
  shows "GetDesiredRouteTableId \<lparr>RawInstanceId = InstanceId i, PublicSubnetId = SubnetId i,
                                 AzConfigurations = azConfigurations\<rparr> t
           = Run (Next \<lparr>DesiredInstanceId = InstanceId i, RouteTable = []\<rparr>) [] t
       \<and> replaceInstanceRoute azConfigurations p r t
           = Run (Raise (PathNotFound ''$.RouteTable[0].privateRouteTableId'')) [] t
       \<and> outcome (createFallbackStateMachine pol azConfigurations p t0) \<noteq> Succeeded
       \<and> ((\<forall>r'\<in>set reservations. Instances r' \<noteq> []) \<and> (\<forall>rp. replaceRoute p rp t0 = Inr ())
            \<longrightarrow> outcome (createFallbackStateMachine pol azConfigurations p t0)
                  = Failed (Uncaught (PathNotFound ''$.RouteTable[0].privateRouteTableId'')))"
proof -
  let ?f = "replaceInstanceRoute azConfigurations p"
  have empty: "filter (\<lambda>az. publicSubnetId az = SubnetId i) azConfigurations = []"
    using unmatched by (simp add: filter_empty_conv)
  have item: "\<And>t. ?f r t
           = Run (Raise (PathNotFound ''$.RouteTable[0].privateRouteTableId'')) [] t"
    by (simp add: replaceInstanceRoute_unfold i empty)
  have instant: "\<forall>x\<in>set reservations. clock (?f x t0) = t0"
    by (simp add: replaceInstanceRoute_instant(1))
  have fails: "\<forall>a. status (?f r t0) \<noteq> Next a"
    by (simp add: item)
  from mapItems_instant_fails[of reservations ?f t0 "[]" r pol 6, OF instant _ r fails]
  obtain y x where y: "status (mapItems pol 6 ?f t0 [] reservations) = failWith y"
    and x: "x \<in> set reservations" "status (?f x t0) = failWith y"
    by auto
  have notsucc: "outcome (createFallbackStateMachine pol azConfigurations p t0) \<noteq> Succeeded"
    using y by (cases y) (simp_all add: fallback_sel(2)[OF listing])
  have cause: "outcome (createFallbackStateMachine pol azConfigurations p t0)
                  = Failed (Uncaught (PathNotFound ''$.RouteTable[0].privateRouteTableId''))"
    if "\<forall>r'\<in>set reservations. Instances r' \<noteq> []" "\<forall>rp. replaceRoute p rp t0 = Inr ()"
  proof -
    have "Instances x \<noteq> []" using that(1) x(1) by blast
    from replaceInstanceRoute_failure[OF this that(2) x(2)]
    have "y = Raised (PathNotFound ''$.RouteTable[0].privateRouteTableId'')" .
    then show ?thesis using y by (simp add: fallback_sel(2)[OF listing])
  qed
  show ?thesis
    using item notsucc cause by (simp add: GetDesiredRouteTableId_def empty)
qed

theorem fallback_unmatched_instance_fails_witness:
  "replaceInstanceRoute exampleZones
      (healthyProvider\<lparr>describeInstances := \<lambda>filters t. Inr strayInstances\<rparr>)
      \<lparr>Instances = [\<lparr>InstanceId = ''i-stray'', SubnetId = ''subnet-elsewhere''\<rparr>]\<rparr> 0
     = Run (Raise (PathNotFound ''$.RouteTable[0].privateRouteTableId'')) [] 0
   \<and> outcome (createFallbackStateMachine WaitForAll exampleZones
        (healthyProvider\<lparr>describeInstances := \<lambda>filters t. Inr strayInstances\<rparr>) 0)
      = Failed (Uncaught (PathNotFound ''$.RouteTable[0].privateRouteTableId''))"
proof -
  let ?p = "healthyProvider\<lparr>describeInstances := \<lambda>filters t. Inr strayInstances\<rparr>"
  let ?i = "\<lparr>InstanceId = ''i-stray'', SubnetId = ''subnet-elsewhere''\<rparr>"
  have listing: "describeInstances ?p natInstancesFilters 0 = Inr strayInstances"
    by simp
  have r: "\<lparr>Instances = [?i]\<rparr> \<in> set strayInstances"
    by (simp add: strayInstances_def)
  have i: "Instances \<lparr>Instances = [?i]\<rparr> = ?i # []"
    by simp
  have unmatched: "\<forall>az\<in>set exampleZones. publicSubnetId az \<noteq> SubnetId ?i"
    by (simp add: exampleZones_def exampleZone_def)
  have calm: "(\<forall>r'\<in>set strayInstances. Instances r' \<noteq> [])
              \<and> (\<forall>rp. replaceRoute ?p rp 0 = Inr ())"
    by (simp add: strayInstances_def healthyProvider_def)
  from fallback_unmatched_instance_fails[OF listing r i unmatched, of 0 WaitForAll] calm
  show ?thesis by simp
qed

text \<open>
  The claim as stated fails in two ways. With the listing \<open>strayInstances\<close>, whose first
  instance runs in the public subnet of no zone, the execution fails under either Map
  policy, but with the path error as its cause and not in the Fail state \<open>Fallback\<close>: the
  Map's catch is not taken. With the listing \<open>hiddenStray\<close>, where such an instance is the
  second of its reservation, the execution succeeds.
\<close>

theorem fallback_unmatched_instance_not_caught:
  "Instances (strayInstances ! 0)
     = [\<lparr>InstanceId = ''i-stray'', SubnetId = ''subnet-elsewhere''\<rparr>]
   \<and> filter (\<lambda>az. publicSubnetId az = ''subnet-elsewhere'') exampleZones = []
   \<and> outcome (createFallbackStateMachine FailFast exampleZones
        (healthyProvider\<lparr>describeInstances := \<lambda>filters t. Inr strayInstances\<rparr>) 0)
      = Failed (Uncaught (PathNotFound ''$.RouteTable[0].privateRouteTableId''))
   \<and> outcome (createFallbackStateMachine WaitForAll exampleZones
        (healthyProvider\<lparr>describeInstances := \<lambda>filters t. Inr strayInstances\<rparr>) 0)
      = Failed (Uncaught (PathNotFound ''$.RouteTable[0].privateRouteTableId''))
   \<and> Instances (hiddenStray ! 0) ! 1
     = \<lparr>InstanceId = ''i-stray'', SubnetId = ''subnet-elsewhere''\<rparr>
   \<and> outcome (createFallbackStateMachine FailFast exampleZones
        (healthyProvider\<lparr>describeInstances := \<lambda>filters t. Inr hiddenStray\<rparr>) 0)
      = Succeeded
   \<and> outcome (createFallbackStateMachine WaitForAll exampleZones
        (healthyProvider\<lparr>describeInstances := \<lambda>filters t. Inr hiddenStray\<rparr>) 0)
      = Succeeded"
  by code_simp

section \<open>Maintenance\<close>

declare imagePipelineStatusLoop.simps [simp del]

lemma getCheckImagesPipelineStatus_unfold:
  "addCatch (getCheckImagesPipelineStatus p arn now) (createStateMachineFailState ''Generic'')
     = (case listImageBuildVersions p arn now of
          Inl e \<Rightarrow> Run (Halt (FailState ''Generic'')) [Api now (ListImageBuildVersions arn)] now
        | Inr [] \<Rightarrow> Run (Raise (PathNotFound ''$.ImageSummaryList[0].State.Status''))
                      [Api now (ListImageBuildVersions arn)] now
        | Inr (s # rest) \<Rightarrow> Run (Next s) [Api now (ListImageBuildVersions arn)] now)"
  by (simp add: getCheckImagesPipelineStatus_def callAwsService_def
      createStateMachineFailState_def split: sum.splits list.splits)



text \<open>A Maintenance execution up to the status loop.\<close>

lemma maintenance_unfold:
  assumes "listImageBuildVersions p (imageVersionArn recipe) t0 = Inr (s # rest)"
  shows "createMaintenanceStateMachine pol azs sg pipelineArn recipe p t0 =
     (if s \<noteq> ''AVAILABLE'' \<and> s \<noteq> ''FAILED''
      then Execution (Failed (FailState ''AlreadyRunningPipeline''))
             [Api t0 (ListImageBuildVersions (imageVersionArn recipe))] t0
      else (case startImagePipelineExecution p pipelineArn t0 of
              Inl e \<Rightarrow> Execution (Failed (FailState ''Generic''))
                         [Api t0 (ListImageBuildVersions (imageVersionArn recipe)),
                          Api t0 (StartImagePipelineExecution pipelineArn)] t0
            | Inr u \<Rightarrow>
                runStateMachine
                  (after [Api t0 (ListImageBuildVersions (imageVersionArn recipe)),
                          Api t0 (StartImagePipelineExecution pipelineArn)]
                     (imagePipelineStatusLoop pol azs sg p (imageVersionArn recipe)
                        (t0 + 3600) (t0 + 600)))))"
proof -
  have first: "addCatch (getCheckImagesPipelineStatus p (imageVersionArn recipe) t0)
                 (createStateMachineFailState ''Generic'')
               = Run (Next s) [Api t0 (ListImageBuildVersions (imageVersionArn recipe))] t0"
    by (simp add: getCheckImagesPipelineStatus_unfold assms)
  have w: "waitState 600 (t0 + 3600) t0 = Run (Next ()) [] (t0 + 600)"
    by (simp add: waitState_def)
  obtain st evs t where loop: "imagePipelineStatusLoop pol azs sg p (imageVersionArn recipe)
                        (t0 + 3600) (t0 + 600) = Run st evs t"
    by (cases "imagePipelineStatusLoop pol azs sg p (imageVersionArn recipe)
                        (t0 + 3600) (t0 + 600)") simp
  show ?thesis
    unfolding createMaintenanceStateMachine_def Let_def first
    by (cases "startImagePipelineExecution p pipelineArn t0"; cases st)
       (simp_all add: getTriggerImagesPipeline_def callAwsService_def
          createStateMachineFailState_def w loop)
qed

text \<open>
  Claim C7. When the initial status check of a Maintenance execution returns a status
  that is neither \<open>AVAILABLE\<close> nor \<open>FAILED\<close>, the execution ends in the Fail state
  \<open>AlreadyRunningPipeline\<close> and the status check is the only call it issued: no build is
  triggered. When the status is \<open>AVAILABLE\<close> or \<open>FAILED\<close>, the call after the status check
  is the start of the image pipeline.
\<close>

theorem maintenance_pipeline_guard:
  fixes pol azConfigurations sg imagePipelineArn imageRecipe p t0
  defines "ex \<equiv> createMaintenanceStateMachine pol azConfigurations sg imagePipelineArn
                   imageRecipe p t0"
  assumes "listImageBuildVersions p (imageVersionArn imageRecipe) t0 = Inr (s # rest)"
  shows "(s \<noteq> ''AVAILABLE'' \<and> s \<noteq> ''FAILED''
            \<longrightarrow> outcome ex = Failed (FailState ''AlreadyRunningPipeline'')
                \<and> trace ex = [Api t0 (ListImageBuildVersions (imageVersionArn imageRecipe))])
       \<and> (s = ''AVAILABLE'' \<or> s = ''FAILED''
            \<longrightarrow> (\<exists>later. trace ex
                     = Api t0 (ListImageBuildVersions (imageVersionArn imageRecipe))
                       # Api t0 (StartImagePipelineExecution imagePipelineArn) # later))"
proof (intro conjI impI)
  assume "s \<noteq> ''AVAILABLE'' \<and> s \<noteq> ''FAILED''"
  then show "outcome ex = Failed (FailState ''AlreadyRunningPipeline'')"
    and "trace ex = [Api t0 (ListImageBuildVersions (imageVersionArn imageRecipe))]"
    unfolding ex_def by (simp_all add: maintenance_unfold[OF assms(2)])
next
  assume ok: "s = ''AVAILABLE'' \<or> s = ''FAILED''"
  show "\<exists>later. trace ex
                     = Api t0 (ListImageBuildVersions (imageVersionArn imageRecipe))
                       # Api t0 (StartImagePipelineExecution imagePipelineArn) # later"
  proof (cases "startImagePipelineExecution p imagePipelineArn t0")
    case (Inl e)
    then show ?thesis using ok
      unfolding ex_def by (auto simp: maintenance_unfold[OF assms(2)])
  next
    case (Inr u)
    then show ?thesis using ok
      unfolding ex_def by (auto simp: maintenance_unfold[OF assms(2)] runStateMachine_sel)
  qed
qed

theorem maintenance_pipeline_guard_witness:
  "(outcome (createMaintenanceStateMachine FailFast exampleZones ''sg-nat'' ''arn:pipeline''
       exampleRecipe
       (healthyProvider\<lparr>listImageBuildVersions := \<lambda>arn t. Inr [''BUILDING'']\<rparr>) 0)
      = Failed (FailState ''AlreadyRunningPipeline'')
    \<and> trace (createMaintenanceStateMachine FailFast exampleZones ''sg-nat'' ''arn:pipeline''
       exampleRecipe
       (healthyProvider\<lparr>listImageBuildVersions := \<lambda>arn t. Inr [''BUILDING'']\<rparr>) 0)
      = [Api 0 (ListImageBuildVersions (imageVersionArn exampleRecipe))])
   \<and> (\<exists>later. trace (createMaintenanceStateMachine FailFast exampleZones ''sg-nat''
                  ''arn:pipeline'' exampleRecipe healthyProvider 0)
         = Api 0 (ListImageBuildVersions (imageVersionArn exampleRecipe))
           # Api 0 (StartImagePipelineExecution ''arn:pipeline'') # later)"
proof -
  have busy: "listImageBuildVersions
                (healthyProvider\<lparr>listImageBuildVersions := \<lambda>arn t. Inr [''BUILDING'']\<rparr>)
                (imageVersionArn exampleRecipe) 0 = Inr (''BUILDING'' # [])"
    by simp
  have idle: "listImageBuildVersions healthyProvider (imageVersionArn exampleRecipe) 0
                = Inr (''AVAILABLE'' # [])"
    by (simp add: healthyProvider_def)
  from maintenance_pipeline_guard[OF busy, of FailFast exampleZones "''sg-nat''" "''arn:pipeline''"]
    maintenance_pipeline_guard[OF idle, of FailFast exampleZones "''sg-nat''" "''arn:pipeline''"]
  show ?thesis by simp
qed



end
